theory Spec2Isabelle
  imports Complex_Main "HOL-Library.AList" "HOL-Library.List_Lexorder"
    "HOL-Library.Product_Lexorder" "HOL-Library.Word"
begin

section \<open>The mapping generator (generate\_logos.py)\<close>

subsection \<open>Python strings\<close>

text \<open>
  A Python \<^verbatim>\<open>str\<close> is a sequence of Unicode code points; a code point is modelled by
  its number. Comparison of two strings (\<^verbatim>\<open><\<close>, as used by \<^verbatim>\<open>sorted\<close>) is the
  lexicographic order on code points, which is the order of \<open>HOL-Library.List_Lexorder\<close>
  on \<^typ>\<open>nat list\<close>. \<open>str\<close> turns an ASCII literal of the script into its code points.
\<close>

type_synonym pystr = "nat list"

definition str :: "string \<Rightarrow> pystr" where
  "str cs = map of_char cs"

text \<open>
  \<^verbatim>\<open>str.strip()\<close> with no argument removes leading and trailing whitespace, where
  whitespace is what \<^verbatim>\<open>str.isspace\<close> accepts.
\<close>

definition isspace :: "nat \<Rightarrow> bool" where
  "isspace c \<longleftrightarrow>
     (9 \<le> c \<and> c \<le> 13) \<or> (28 \<le> c \<and> c \<le> 32) \<or> c = 133 \<or> c = 160 \<or> c = 5760 \<or>
     (8192 \<le> c \<and> c \<le> 8202) \<or> c = 8232 \<or> c = 8233 \<or> c = 8239 \<or> c = 8287 \<or> c = 12288"

definition strip :: "pystr \<Rightarrow> pystr" where
  "strip s = rev (dropWhile isspace (rev (dropWhile isspace s)))"

text \<open>\<^verbatim>\<open>sub in s\<close>: \<open>sub\<close> occurs in \<open>s\<close> as a contiguous substring.\<close>

fun startswith :: "pystr \<Rightarrow> pystr \<Rightarrow> bool" where
  "startswith s [] = True"
| "startswith [] (p # ps) = False"
| "startswith (c # cs) (p # ps) = (c = p \<and> startswith cs ps)"

fun str_contains :: "pystr \<Rightarrow> pystr \<Rightarrow> bool" where
  "str_contains sub [] = (sub = [])"
| "str_contains sub (c # cs) = (startswith (c # cs) sub \<or> str_contains sub cs)"

text \<open>\<^verbatim>\<open>sep.join(lines)\<close>\<close>

fun join :: "pystr \<Rightarrow> pystr list \<Rightarrow> pystr" where
  "join sep [] = []"
| "join sep [l] = l"
| "join sep (l # m # ls) = l @ sep @ join sep (m # ls)"

subsection \<open>Reading the CSV file\<close>

text \<open>
  The CSV file is given by the records that \<^verbatim>\<open>csv.reader\<close> splits it into, each a list of
  fields. \<^verbatim>\<open>csv.DictReader\<close> takes the first record as the field names, skips every later
  record that is empty, and turns each other record into a dictionary from field name to
  field: a record shorter than the header gets \<^verbatim>\<open>None\<close> for the missing fields, the
  surplus fields of a longer record go under the key \<^verbatim>\<open>None\<close>, which the script never reads.
  A row is a map from field name to \<open>Some field\<close> or \<open>None\<close> (Python's \<^verbatim>\<open>None\<close>).
\<close>

type_synonym row = "pystr \<rightharpoonup> pystr option"

definition dict_row :: "pystr list \<Rightarrow> pystr list \<Rightarrow> row" where
  "dict_row fieldnames record =
     fold (\<lambda>(k, v) d. d(k \<mapsto> v))
       (zip fieldnames (map Some record @ replicate (length fieldnames - length record) None))
       Map.empty"

definition DictReader :: "pystr list list \<Rightarrow> row list" where
  "DictReader records =
     (case records of
        [] \<Rightarrow> []
      | fieldnames # rest \<Rightarrow> map (dict_row fieldnames) (filter (\<lambda>r. r \<noteq> []) rest))"

datatype py_error =
  FileNotFoundError | KeyError pystr | AttributeError | ParseError | UnidentifiedImageError

text \<open>
  Line 10: \<^verbatim>\<open>name = row['university_name'].strip()\<close>. The subscript raises
  \<^verbatim>\<open>KeyError\<close> when the header has no such column, and \<^verbatim>\<open>.strip()\<close> raises
  \<^verbatim>\<open>AttributeError\<close> on \<^verbatim>\<open>None\<close>.
\<close>

definition get_name :: "row \<Rightarrow> py_error + pystr" where
  "get_name row =
     (case row (str ''university_name'') of
        None \<Rightarrow> Inl (KeyError (str ''university_name''))
      | Some None \<Rightarrow> Inl AttributeError
      | Some (Some v) \<Rightarrow> Inr (strip v))"

text \<open>
  Line 11: \<^verbatim>\<open>logo_url = row['logo_url'].strip() if row['logo_url'] else ''\<close>. \<^verbatim>\<open>None\<close>
  and the empty string are both false.
\<close>

definition get_logo_url :: "row \<Rightarrow> py_error + pystr" where
  "get_logo_url row =
     (case row (str ''logo_url'') of
        None \<Rightarrow> Inl (KeyError (str ''logo_url''))
      | Some None \<Rightarrow> Inr []
      | Some (Some v) \<Rightarrow> Inr (if v \<noteq> [] then strip v else []))"

text \<open>Lines 14 to 18: the condition under which a row is stored.\<close>

definition valid_url :: "pystr \<Rightarrow> bool" where
  "valid_url logo_url \<longleftrightarrow>
     logo_url \<noteq> [] \<and>
     \<not> str_contains (str ''#/media'') logo_url \<and>
     \<not> str_contains (str ''data:image'') logo_url \<and>
     \<not> str_contains (str ''Not have'') logo_url \<and>
     \<not> str_contains (str ''Dangerous'') logo_url"

text \<open>
  The dictionary \<^verbatim>\<open>universities\<close> is an association list in insertion order;
  \<^verbatim>\<open>universities[name] = logo_url\<close> is \<^const>\<open>AList.update\<close>: a new key is appended, the
  value of an existing key is replaced in place. The loop of lines 9 to 19 stops at the
  first row that raises.
\<close>

type_synonym dict = "(pystr \<times> pystr) list"

fun csv_loop :: "row list \<Rightarrow> dict \<Rightarrow> py_error + dict" where
  "csv_loop [] universities = Inr universities"
| "csv_loop (row # rows) universities =
     (case get_name row of
        Inl e \<Rightarrow> Inl e
      | Inr name \<Rightarrow>
          (case get_logo_url row of
             Inl e \<Rightarrow> Inl e
           | Inr logo_url \<Rightarrow>
               if valid_url logo_url
               then csv_loop rows (AList.update name logo_url universities)
               else csv_loop rows universities))"

text \<open>
  Lines 6 to 19. The argument is the CSV file as the file system has it: \<open>None\<close> when
  there is no such file, so that \<^verbatim>\<open>open\<close> raises.
\<close>

definition read_universities :: "pystr list list option \<Rightarrow> py_error + dict" where
  "read_universities csv_file =
     (case csv_file of
        None \<Rightarrow> Inl FileNotFoundError
      | Some records \<Rightarrow> csv_loop (DictReader records) [])"

subsection \<open>Generating the TypeScript text\<close>

text \<open>Line 34: \<^verbatim>\<open>re.sub(r'[^a-zA-Z0-9]', '', name)\<close> deletes every character outside the class.\<close>

definition alnum :: "nat \<Rightarrow> bool" where
  "alnum c \<longleftrightarrow> (97 \<le> c \<and> c \<le> 122) \<or> (65 \<le> c \<and> c \<le> 90) \<or> (48 \<le> c \<and> c \<le> 57)"

definition short_key :: "pystr \<Rightarrow> pystr" where
  "short_key name = filter alnum name"

text \<open>Line 35: \<^verbatim>\<open>f"  '{short_key}': '{url}',"\<close>\<close>

definition entry_line :: "pystr \<times> pystr \<Rightarrow> pystr" where
  "entry_line item =
     (case item of (name, url) \<Rightarrow> str ''  '' @ [39] @ short_key name @ [39] @ str '': '' @ [39] @
        url @ [39] @ str '','')"

definition header_lines :: "pystr list" where
  "header_lines =
     [str ''export const UNIVERSITY_LOGO_MAP: Record<string, string> = {'',
      str ''  // All 257 Pakistani Universities - Logo URLs from Official Sources'',
      str ''  // Updated: January 2026'',
      str ''  // Auto-generated from CSV data'',
      []]"

text \<open>
  Lines 25 to 37. \<^verbatim>\<open>sorted(universities.items())\<close> sorts the (name, url) pairs by
  Python's tuple order, which is the lexicographic order of
  \<open>HOL-Library.Product_Lexorder\<close>.
\<close>

definition entry_lines :: "dict \<Rightarrow> pystr list" where
  "entry_lines universities = map entry_line (sort universities)"

definition ts_lines :: "dict \<Rightarrow> pystr list" where
  "ts_lines universities = header_lines @ entry_lines universities @ [str ''};'']"

subsection \<open>The script\<close>

text \<open>
  The files the script touches: the CSV file \<^verbatim>\<open>universities DATA.csv\<close> and the output
  file \<^verbatim>\<open>university_logos_complete.ts\<close> (\<open>None\<close>: no such file). The script's
  \<^verbatim>\<open>print\<close> calls write to standard output only and are left out. The run returns
  the exception that ended it, if any, and the files as they are then.
\<close>

record files =
  csv_file :: "pystr list list option"
  ts_file :: "pystr option"

definition generate_logos :: "files \<Rightarrow> py_error option \<times> files" where
  "generate_logos fs =
     (case read_universities (csv_file fs) of
        Inl e \<Rightarrow> (Some e, fs)
      | Inr universities \<Rightarrow>
          (None, fs\<lparr>ts_file := Some (join [10] (ts_lines universities))\<rparr>))"

subsection \<open>The consumer of the generated file\<close>

text \<open>
  Modelled from the spec: the downstream mapping structure that the generated file
  declares is not part of these scripts. The spec says that of two entries with the same
  key the later one silently overwrites the earlier one there; the entries are taken in
  file order, as (key, URL) pairs.
\<close>

definition downstream_mapping :: "(pystr \<times> pystr) list \<Rightarrow> (pystr \<rightharpoonup> pystr)" where
  "downstream_mapping entries = fold (\<lambda>(key, url) m. m(key \<mapsto> url)) entries Map.empty"

section \<open>The icon generator (scripts/generate-icons.py)\<close>

subsection \<open>Floating point: the inner size\<close>

text \<open>
  Line 101, \<^verbatim>\<open>int(size * 0.78)\<close>, multiplies in binary64. A double is a rational number
  here; \<open>round_to_double\<close> rounds a non-negative rational to the nearest number with a
  53-bit significand, ties to even (overflow and subnormal numbers are not modelled: the
  values of the script are between \<open>1/2\<close> and \<open>192\<close>). The literal \<^verbatim>\<open>0.78\<close> is the
  double nearest to \<open>78/100\<close>, an \<^verbatim>\<open>int\<close> below \<open>2 ^ 53\<close> converts exactly, the product
  is the rounded exact product, and \<^verbatim>\<open>int()\<close> truncates towards zero.
\<close>

fun ilog2 :: "nat \<Rightarrow> nat" where
  "ilog2 n = (if n < 2 then 0 else Suc (ilog2 (n div 2)))"

declare ilog2.simps [simp del]

definition exponent :: "rat \<Rightarrow> int" where
  "exponent x =
     (if 1 \<le> x then int (ilog2 (nat \<lfloor>x\<rfloor>)) else - int (ilog2 (nat \<lceil>1 / x\<rceil> - 1)) - 1)"

definition round_half_even :: "rat \<Rightarrow> int" where
  "round_half_even q =
     (let f = \<lfloor>q\<rfloor>; r = q - of_int f
      in if r < 1 / 2 then f else if 1 / 2 < r then f + 1 else if even f then f else f + 1)"

definition round_to_double :: "rat \<Rightarrow> rat" where
  "round_to_double x =
     (if x \<le> 0 then 0
      else let e = exponent x;
               ulp = (if 52 \<le> e then 2 ^ nat (e - 52) else 1 / 2 ^ nat (52 - e))
           in of_int (round_half_even (x / ulp)) * ulp)"

definition float_mul :: "rat \<Rightarrow> rat \<Rightarrow> rat" where
  "float_mul a b = round_to_double (a * b)"

definition py_int :: "rat \<Rightarrow> int" where
  "py_int x = (if 0 \<le> x then \<lfloor>x\<rfloor> else \<lceil>x\<rceil>)"

definition inner_size_of :: "int \<Rightarrow> int" where
  "inner_size_of sz = py_int (float_mul (of_int sz) (round_to_double (78 / 100)))"

subsection \<open>Images\<close>

text \<open>
  A Pillow image has a mode, a size (width, height) and pixels of four bytes: red, green,
  blue and alpha in mode \<open>RGBA\<close>; red, green, blue and a padding byte in mode \<open>RGB\<close>,
  which has no alpha channel; the grey value and three unused bytes in mode \<open>L\<close>. Only the
  pixels inside the size are part of the image.
\<close>

datatype mode = L | RGB | RGBA

type_synonym pixel = "8 word \<times> 8 word \<times> 8 word \<times> 8 word"

record image =
  im_mode :: mode
  im_size :: "int \<times> int"
  getpixel :: "int \<times> int \<Rightarrow> pixel"

definition gray :: "8 word \<Rightarrow> pixel" where
  "gray v = (v, 0, 0, 0)"

definition rgb :: "8 word \<times> 8 word \<times> 8 word \<Rightarrow> pixel" where
  "rgb c = (case c of (r, g, b) \<Rightarrow> (r, g, b, 255))"

definition Image_new :: "mode \<Rightarrow> int \<times> int \<Rightarrow> pixel \<Rightarrow> image" where
  "Image_new m sz color = \<lparr>im_mode = m, im_size = sz, getpixel = (\<lambda>p. color)\<rparr>"

text \<open>
  \<^verbatim>\<open>Image.paste(im, box, mask)\<close> blends every byte of the region with Pillow's
  \<^verbatim>\<open>BLEND8\<close>: \<open>in1 * (255 - mask) + in2 * mask\<close>, divided by 255 with rounding. The sum
  is at most \<open>255 * 255\<close>, so C's \<^verbatim>\<open>unsigned int\<close> does not wrap. The mask value is the
  grey value of a mask of mode \<open>L\<close> and the alpha byte of any other mask. The model is for
  the calls that the script makes: a mask of the size of \<open>im\<close>, an \<open>im\<close> of mode \<open>RGBA\<close>
  or of the mode of the image pasted into, for which Pillow converts nothing. Pillow changes
  the image in place; the model returns the changed image.
\<close>

definition div255 :: "nat \<Rightarrow> nat" where
  "div255 a = (let tmp = a + 128 in (tmp div 256 + tmp) div 256)"

definition blend8 :: "8 word \<Rightarrow> 8 word \<Rightarrow> 8 word \<Rightarrow> 8 word" where
  "blend8 mask' in1 in2 = of_nat (div255 (unat in1 * (255 - unat mask') + unat in2 * unat mask'))"

definition blend :: "8 word \<Rightarrow> pixel \<Rightarrow> pixel \<Rightarrow> pixel" where
  "blend a out inp =
     (case out of (o0, o1, o2, o3) \<Rightarrow> case inp of (i0, i1, i2, i3) \<Rightarrow>
        (blend8 a o0 i0, blend8 a o1 i1, blend8 a o2 i2, blend8 a o3 i3))"

definition mask_value :: "image \<Rightarrow> int \<times> int \<Rightarrow> 8 word" where
  "mask_value mask' p = (case getpixel mask' p of (v, g, b, a) \<Rightarrow> if im_mode mask' = L then v else a)"

definition paste :: "image \<Rightarrow> image \<Rightarrow> int \<times> int \<Rightarrow> image \<Rightarrow> image" where
  "paste dst im box mask' =
     dst\<lparr>getpixel := (\<lambda>(x, y).
       case box of (x0, y0) \<Rightarrow> case im_size im of (w, h) \<Rightarrow>
         if x0 \<le> x \<and> x < x0 + w \<and> y0 \<le> y \<and> y < y0 + h
         then blend (mask_value mask' (x - x0, y - y0)) (getpixel dst (x, y))
                (getpixel im (x - x0, y - y0))
         else getpixel dst (x, y))\<rparr>"

text \<open>\<^verbatim>\<open>Image.convert("RGBA")\<close>\<close>

definition convert_RGBA :: "image \<Rightarrow> image" where
  "convert_RGBA im =
     (case im_mode im of
        RGBA \<Rightarrow> im
      | RGB \<Rightarrow> \<lparr>im_mode = RGBA, im_size = im_size im,
                 getpixel = (\<lambda>p. case getpixel im p of (r, g, b, a) \<Rightarrow> (r, g, b, 255))\<rparr>
      | L \<Rightarrow> \<lparr>im_mode = RGBA, im_size = im_size im,
               getpixel = (\<lambda>p. case getpixel im p of (v, g, b, a) \<Rightarrow> (v, v, v, 255))\<rparr>)"

subsection \<open>What the libraries compute\<close>

text \<open>
  The pixels that CairoSVG renders from an SVG source, the pixels that Pillow's Lanczos
  filter resamples and the pixels that \<^verbatim>\<open>ImageDraw.ellipse\<close> fills for a bounding box are
  not decided by the script; they are parameters. \<open>cairo\<close> gives \<open>None\<close> for a source that
  CairoSVG cannot parse.
\<close>

record env =
  cairo :: "string \<Rightarrow> int \<Rightarrow> int \<Rightarrow> (int \<times> int \<Rightarrow> pixel) option"
  lanczos :: "image \<Rightarrow> int \<times> int \<Rightarrow> int \<times> int \<Rightarrow> pixel"
  ellipse_covers :: "int \<times> int \<times> int \<times> int \<Rightarrow> int \<times> int \<Rightarrow> bool"

text \<open>\<^verbatim>\<open>im.resize(size, Image.LANCZOS)\<close>\<close>

definition resize :: "env \<Rightarrow> image \<Rightarrow> int \<times> int \<Rightarrow> image" where
  "resize env im sz = \<lparr>im_mode = im_mode im, im_size = sz, getpixel = lanczos env im sz\<rparr>"

text \<open>\<^verbatim>\<open>ImageDraw.Draw(im).ellipse(bbox, fill=fill)\<close>: no outline, every covered pixel is set.\<close>

definition draw_ellipse :: "env \<Rightarrow> image \<Rightarrow> int \<times> int \<times> int \<times> int \<Rightarrow> pixel \<Rightarrow> image" where
  "draw_ellipse env im bbox fill =
     im\<lparr>getpixel := (\<lambda>p. if ellipse_covers env bbox p then fill else getpixel im p)\<rparr>"

subsection \<open>Files\<close>

text \<open>
  A path is the list of its components, so that \<^verbatim>\<open>os.path.join\<close> appends. A file is an
  SVG source or a PNG image (the PNG encoding is left out: a saved image is read back as
  it was). Directories are not modelled: \<^verbatim>\<open>os.makedirs\<close> with \<^verbatim>\<open>exist_ok=True\<close> changes
  no file.
\<close>

type_synonym path = "string list"

datatype file_content = Svg string | Png image

type_synonym fs = "path \<rightharpoonup> file_content"

definition SVG_DIR :: "path \<Rightarrow> path" where
  "SVG_DIR BASE_DIR = BASE_DIR @ [''src'', ''assets'', ''svg'']"

definition IMG_DIR :: "path \<Rightarrow> path" where
  "IMG_DIR BASE_DIR = BASE_DIR @ [''src'', ''assets'', ''images'']"

definition ANDROID_RES :: "path \<Rightarrow> path" where
  "ANDROID_RES BASE_DIR = BASE_DIR @ [''android'', ''app'', ''src'', ''main'', ''res'']"

definition STORE_DIR :: "path \<Rightarrow> path" where
  "STORE_DIR BASE_DIR = BASE_DIR @ [''store-listing'']"

text \<open>
  \<^verbatim>\<open>cairosvg.svg2png(url, write_to, output_width, output_height)\<close> raises when there is no
  file at \<open>url\<close> or when it is no SVG source, and else writes an image of the given size.
\<close>

definition svg2png :: "env \<Rightarrow> fs \<Rightarrow> path \<Rightarrow> path \<Rightarrow> int \<Rightarrow> int \<Rightarrow> py_error + fs" where
  "svg2png env files url write_to output_width output_height =
     (case files url of
        None \<Rightarrow> Inl FileNotFoundError
      | Some (Png im) \<Rightarrow> Inl ParseError
      | Some (Svg source) \<Rightarrow>
          (case cairo env source output_width output_height of
             None \<Rightarrow> Inl ParseError
           | Some raster \<Rightarrow>
               Inr (files(write_to \<mapsto>
                 Png \<lparr>im_mode = RGBA, im_size = (output_width, output_height),
                      getpixel = raster\<rparr>))))"

definition Image_open :: "fs \<Rightarrow> path \<Rightarrow> py_error + image" where
  "Image_open files p =
     (case files p of
        None \<Rightarrow> Inl FileNotFoundError
      | Some (Svg source) \<Rightarrow> Inl UnidentifiedImageError
      | Some (Png im) \<Rightarrow> Inr im)"

definition save :: "fs \<Rightarrow> image \<Rightarrow> path \<Rightarrow> fs" where
  "save files im p = files(p \<mapsto> Png im)"

subsection \<open>The steps of the script\<close>

text \<open>Lines 56 to 70: the round icon, from the 400 by 400 render \<open>icon_fg\<close>.\<close>

definition round_icon :: "env \<Rightarrow> image \<Rightarrow> image" where
  "round_icon env icon_fg =
     (let canvas = Image_new RGBA (512, 512) (255, 255, 255, 255);
          offset_x = (512 - 400) div 2;
          offset_y = (512 - 400) div 2;
          canvas = paste canvas icon_fg (offset_x, offset_y) icon_fg;
          mask' = Image_new L (512, 512) (gray 0);
          mask' = draw_ellipse env mask' (0, 0, 512, 512) (gray 255);
          round_icon = Image_new RGBA (512, 512) (0, 0, 0, 0)
      in paste round_icon canvas (0, 0) mask')"

text \<open>Lines 76 to 80: the store icon, from the same \<open>icon_fg\<close>.\<close>

definition store_icon :: "env \<Rightarrow> image \<Rightarrow> image" where
  "store_icon env icon_fg =
     (let store_icon = Image_new RGB (512, 512) (rgb (255, 255, 255));
          icon_for_store = resize env icon_fg (420, 420);
          store_offset = (512 - 420) div 2
      in paste store_icon icon_for_store (store_offset, store_offset) icon_for_store)"

text \<open>Lines 99 and 110: the square launcher icon of a tier, from the render \<open>fg\<close>.\<close>

definition launcher_square :: "image \<Rightarrow> int \<Rightarrow> int \<Rightarrow> image" where
  "launcher_square fg sz offset =
     (let bg = Image_new RGB (sz, sz) (rgb (255, 255, 255))
      in paste bg fg (offset, offset) fg)"

text \<open>Lines 115 to 121: the round launcher icon of a tier.\<close>

definition launcher_round :: "env \<Rightarrow> image \<Rightarrow> int \<Rightarrow> int \<Rightarrow> image" where
  "launcher_round env fg sz offset =
     (let round_canvas = Image_new RGBA (sz, sz) (255, 255, 255, 255);
          round_canvas = paste round_canvas fg (offset, offset) fg;
          round_mask = Image_new L (sz, sz) (gray 0);
          round_mask = draw_ellipse env round_mask (0, 0, sz, sz) (gray 255);
          round_result = Image_new RGBA (sz, sz) (0, 0, 0, 0)
      in paste round_result round_canvas (0, 0) round_mask)"

text \<open>Lines 85 to 91; a Python dictionary is iterated in insertion order.\<close>

definition MIPMAP_SIZES :: "(string \<times> int) list" where
  "MIPMAP_SIZES =
     [(''mipmap-mdpi'', 48), (''mipmap-hdpi'', 72), (''mipmap-xhdpi'', 96),
      (''mipmap-xxhdpi'', 144), (''mipmap-xxxhdpi'', 192)]"

text \<open>Lines 95 to 122: the body of the loop over the tiers.\<close>

definition mipmap_tier :: "env \<Rightarrow> path \<Rightarrow> string \<times> int \<Rightarrow> fs \<Rightarrow> py_error + fs" where
  "mipmap_tier env BASE_DIR tier files =
     (case tier of (folder, sz) \<Rightarrow>
        let out_dir = ANDROID_RES BASE_DIR @ [folder];
            inner_size = inner_size_of sz
        in (case svg2png env files (SVG_DIR BASE_DIR @ [''pakuni-icon.svg''])
                   (IMG_DIR BASE_DIR @ [''_temp_mipmap.png'']) inner_size inner_size of
              Inl e \<Rightarrow> Inl e
            | Inr files \<Rightarrow>
                (case Image_open files (IMG_DIR BASE_DIR @ [''_temp_mipmap.png'']) of
                   Inl e \<Rightarrow> Inl e
                 | Inr im \<Rightarrow>
                     let fg = convert_RGBA im;
                         offset = (sz - inner_size) div 2;
                         files = save files (launcher_square fg sz offset)
                                   (out_dir @ [''ic_launcher.png'']);
                         files = save files (launcher_round env fg sz offset)
                                   (out_dir @ [''ic_launcher_round.png''])
                     in Inr files)))"

fun mipmap_loop :: "env \<Rightarrow> path \<Rightarrow> (string \<times> int) list \<Rightarrow> fs \<Rightarrow> py_error + fs" where
  "mipmap_loop env BASE_DIR [] files = Inr files"
| "mipmap_loop env BASE_DIR (tier # tiers) files =
     (case mipmap_tier env BASE_DIR tier files of
        Inl e \<Rightarrow> Inl e
      | Inr files \<Rightarrow> mipmap_loop env BASE_DIR tiers files)"

text \<open>Lines 126 to 129: \<^verbatim>\<open>os.remove\<close> of the temporary files that exist.\<close>

definition cleanup :: "path \<Rightarrow> fs \<Rightarrow> fs" where
  "cleanup BASE_DIR files =
     fold (\<lambda>temp files. files(IMG_DIR BASE_DIR @ [temp] := None))
       [''_temp_icon.png'', ''_temp_mipmap.png''] files"

text \<open>
  The script, on the files below \<open>BASE_DIR\<close> (the parent of the script's directory). The
  result is the exception that ends the run or the files after it; \<^verbatim>\<open>print\<close> is left out.
\<close>

definition generate_icons :: "env \<Rightarrow> path \<Rightarrow> fs \<Rightarrow> py_error + fs" where
  "generate_icons env BASE_DIR files =
     (case svg2png env files (SVG_DIR BASE_DIR @ [''pakuni-logo.svg''])
             (IMG_DIR BASE_DIR @ [''pakuni-logo.png'']) 400 520 of
        Inl e \<Rightarrow> Inl e
      | Inr files \<Rightarrow>
     (case svg2png env files (SVG_DIR BASE_DIR @ [''pakuni-icon.svg''])
             (IMG_DIR BASE_DIR @ [''pakuni-icon.png'']) 512 512 of
        Inl e \<Rightarrow> Inl e
      | Inr files \<Rightarrow>
     (case svg2png env files (SVG_DIR BASE_DIR @ [''pakuni-icon.svg''])
             (IMG_DIR BASE_DIR @ [''_temp_icon.png'']) 400 400 of
        Inl e \<Rightarrow> Inl e
      | Inr files \<Rightarrow>
     (case Image_open files (IMG_DIR BASE_DIR @ [''_temp_icon.png'']) of
        Inl e \<Rightarrow> Inl e
      | Inr im \<Rightarrow>
          let icon_fg = convert_RGBA im;
              files = save files (round_icon env icon_fg)
                        (IMG_DIR BASE_DIR @ [''pakuni-icon-round.png'']);
              files = save files (store_icon env icon_fg)
                        (STORE_DIR BASE_DIR @ [''icon-512.png''])
          in (case mipmap_loop env BASE_DIR MIPMAP_SIZES files of
                Inl e \<Rightarrow> Inl e
              | Inr files \<Rightarrow> Inr (cleanup BASE_DIR files))))))"

subsection \<open>The round launcher icon as the spec words it\<close>

text \<open>
  The spec has the rendered icon composited onto a transparent canvas, which is then
  circularly masked. This is \<open>launcher_round\<close> with a transparent \<open>round_canvas\<close>; it
  is here to be compared with \<open>launcher_round\<close>, and the script does not compute it.
\<close>

definition launcher_round_as_specified :: "env \<Rightarrow> image \<Rightarrow> int \<Rightarrow> int \<Rightarrow> image" where
  "launcher_round_as_specified env fg sz offset =
     (let round_canvas = Image_new RGBA (sz, sz) (0, 0, 0, 0);
          round_canvas = paste round_canvas fg (offset, offset) fg;
          round_mask = Image_new L (sz, sz) (gray 0);
          round_mask = draw_ellipse env round_mask (0, 0, sz, sz) (gray 255);
          round_result = Image_new RGBA (sz, sz) (0, 0, 0, 0)
      in paste round_result round_canvas (0, 0) round_mask)"

subsection \<open>An environment and files to run the script on\<close>

text \<open>
  A renderer and a resampling filter that give an opaque black image whatever they are
  asked for, the ellipse of a bounding box \<open>(x0, y0, x1, y1)\<close> as the points \<open>(x, y)\<close>
  with \<open>((2x - x0 - x1) / (x1 - x0))\<^sup>2 + ((2y - y0 - y1) / (y1 - y0))\<^sup>2 \<le> 1\<close>, and a
  repository with the two SVG sources only.
\<close>

definition example_env :: env where
  "example_env =
     \<lparr>cairo = (\<lambda>source w h. Some (\<lambda>p. (0, 0, 0, 255))),
      lanczos = (\<lambda>im sz p. (0, 0, 0, 255)),
      ellipse_covers = (\<lambda>bbox p.
        case bbox of (x0, y0, x1, y1) \<Rightarrow> case p of (x, y) \<Rightarrow>
          (2 * x - x0 - x1)\<^sup>2 * (y1 - y0)\<^sup>2 + (2 * y - y0 - y1)\<^sup>2 * (x1 - x0)\<^sup>2
            \<le> (x1 - x0)\<^sup>2 * (y1 - y0)\<^sup>2)\<rparr>"

definition example_files :: fs where
  "example_files =
     [SVG_DIR [] @ [''pakuni-logo.svg''] \<mapsto> Svg ''<svg/>'',
      SVG_DIR [] @ [''pakuni-icon.svg''] \<mapsto> Svg ''<svg/>'']"

section \<open>Properties of the mapping generator\<close>

subsection \<open>Strings\<close>

text \<open>The two recursive tests are Python's \<^verbatim>\<open>startswith\<close> and \<^verbatim>\<open>in\<close>.\<close>

lemma startswith_iff: "startswith s p \<longleftrightarrow> (\<exists>post. s = p @ post)"
  by (induction s p rule: startswith.induct) auto

lemma str_contains_iff: "str_contains sub s \<longleftrightarrow> (\<exists>pre post. s = pre @ sub @ post)"
proof (induction s)
  case Nil
  then show ?case by simp
next
  case (Cons c cs)
  show ?case
  proof
    assume "str_contains sub (c # cs)"
    then consider "startswith (c # cs) sub" | "str_contains sub cs" by auto
    then show "\<exists>pre post. c # cs = pre @ sub @ post"
    proof cases
      case 1
      then obtain post where "c # cs = [] @ sub @ post" by (auto simp: startswith_iff)
      then show ?thesis by blast
    next
      case 2
      with Cons.IH obtain pre post where "cs = pre @ sub @ post" by blast
      then have "c # cs = (c # pre) @ sub @ post" by simp
      then show ?thesis by blast
    qed
  next
    assume "\<exists>pre post. c # cs = pre @ sub @ post"
    then obtain pre post where eq: "c # cs = pre @ sub @ post" by blast
    show "str_contains sub (c # cs)"
    proof (cases pre)
      case Nil
      with eq have "startswith (c # cs) sub" by (auto simp: startswith_iff)
      then show ?thesis by simp
    next
      case (Cons a pre')
      with eq have "cs = pre' @ sub @ post" by simp
      with Cons.IH have "str_contains sub cs" by blast
      then show ?thesis by simp
    qed
  qed
qed

lemma isspace_not_alnum: "isspace c \<Longrightarrow> \<not> alnum c"
  by (auto simp: isspace_def alnum_def)

lemma filter_dropWhile_disjoint:
  "(\<And>x. Q x \<Longrightarrow> \<not> P x) \<Longrightarrow> filter P (dropWhile Q xs) = filter P xs"
  by (induction xs) auto

lemma short_key_strip: "short_key (strip s) = short_key s"
proof -
  have "filter alnum (dropWhile isspace (rev (dropWhile isspace s))) =
        filter alnum (rev (dropWhile isspace s))"
    by (rule filter_dropWhile_disjoint) (rule isspace_not_alnum)
  moreover have "filter alnum (dropWhile isspace s) = filter alnum s"
    by (rule filter_dropWhile_disjoint) (rule isspace_not_alnum)
  ultimately show ?thesis
    by (simp add: short_key_def strip_def rev_filter [symmetric])
qed

lemma alnum_ranges: "alnum c \<longleftrightarrow> c \<in> {48..57} \<union> {65..90} \<union> {97..122}"
  by (auto simp: alnum_def)

subsection \<open>The dictionary built by the loop\<close>

lemma set_update_subset: "set (AList.update k v al) \<subseteq> insert (k, v) (set al)"
  by (induction al) auto

lemma csv_loop_append:
  "csv_loop (xs @ ys) d = (case csv_loop xs d of Inl e \<Rightarrow> Inl e | Inr d1 \<Rightarrow> csv_loop ys d1)"
  by (induction xs arbitrary: d) (auto split: sum.splits)

text \<open>Every entry of the dictionary was there before or comes from a row with a valid URL.\<close>

lemma csv_loop_entry:
  "csv_loop rows d = Inr d' \<Longrightarrow> (n, u) \<in> set d' \<Longrightarrow>
     (n, u) \<in> set d \<or>
     (\<exists>row\<in>set rows. get_name row = Inr n \<and> get_logo_url row = Inr u \<and> valid_url u)"
proof (induction rows arbitrary: d)
  case Nil
  then show ?case by simp
next
  case (Cons row rows)
  from Cons.prems(1) obtain name logo_url where
    g: "get_name row = Inr name" "get_logo_url row = Inr logo_url"
    by (auto split: sum.splits)
  show ?case
  proof (cases "valid_url logo_url")
    case True
    with Cons.prems g have "csv_loop rows (AList.update name logo_url d) = Inr d'" by simp
    from Cons.IH [OF this Cons.prems(2)] show ?thesis
      using set_update_subset [of name logo_url d] g True by auto
  next
    case False
    with Cons.prems g have "csv_loop rows d = Inr d'" by simp
    from Cons.IH [OF this Cons.prems(2)] show ?thesis by auto
  qed
qed

text \<open>Rows that do not store under \<open>n\<close> leave the entry of \<open>n\<close> as it is.\<close>

lemma csv_loop_keep:
  "csv_loop rows d = Inr d' \<Longrightarrow>
   \<forall>r\<in>set rows. get_name r = Inr n \<longrightarrow> (\<forall>u. get_logo_url r = Inr u \<longrightarrow> \<not> valid_url u) \<Longrightarrow>
   map_of d' n = map_of d n"
  by (induction rows arbitrary: d) (auto split: sum.splits if_splits simp: AList.update_conv')

lemma csv_loop_keys_mono:
  "csv_loop rows d = Inr d' \<Longrightarrow> fst ` set d \<subseteq> fst ` set d'"
proof (induction rows arbitrary: d)
  case Nil
  then show ?case by simp
next
  case (Cons row rows)
  from Cons.prems obtain name logo_url where
    g: "get_name row = Inr name" "get_logo_url row = Inr logo_url"
    by (auto split: sum.splits)
  show ?case
  proof (cases "valid_url logo_url")
    case True
    with Cons.prems g have "csv_loop rows (AList.update name logo_url d) = Inr d'" by simp
    from Cons.IH [OF this] show ?thesis by (auto simp: AList.dom_update)
  next
    case False
    with Cons.prems g have "csv_loop rows d = Inr d'" by simp
    from Cons.IH [OF this] show ?thesis .
  qed
qed

lemma csv_loop_key:
  "csv_loop rows d = Inr d' \<Longrightarrow> row \<in> set rows \<Longrightarrow> get_name row = Inr n \<Longrightarrow>
   get_logo_url row = Inr u \<Longrightarrow> valid_url u \<Longrightarrow> n \<in> fst ` set d'"
proof (induction rows arbitrary: d)
  case Nil
  then show ?case by simp
next
  case (Cons r rows)
  show ?case
  proof (cases "row = r")
    case True
    with Cons.prems have "csv_loop rows (AList.update n u d) = Inr d'" by simp
    from csv_loop_keys_mono [OF this] show ?thesis by (auto simp: AList.dom_update)
  next
    case False
    with Cons.prems have "row \<in> set rows" by simp
    with Cons.prems Cons.IH show ?thesis by (auto split: sum.splits if_splits)
  qed
qed

lemma csv_loop_distinct:
  "csv_loop rows d = Inr d' \<Longrightarrow> distinct (map fst d) \<Longrightarrow> distinct (map fst d')"
  by (induction rows arbitrary: d) (auto split: sum.splits if_splits simp: AList.distinct_update)

text \<open>The last row that stores under a name decides the entry of that name.\<close>

lemma csv_loop_last:
  assumes "csv_loop (before @ row # after) d = Inr d'"
    and "get_name row = Inr n" and "get_logo_url row = Inr u" and "valid_url u"
    and "\<forall>r\<in>set after. get_name r = Inr n \<longrightarrow> (\<forall>u'. get_logo_url r = Inr u' \<longrightarrow> \<not> valid_url u')"
  shows "(n, u) \<in> set d'"
proof -
  from assms(1) obtain d1 where r: "csv_loop (row # after) d1 = Inr d'"
    by (auto simp: csv_loop_append split: sum.splits)
  from r assms(2-4) have "csv_loop after (AList.update n u d1) = Inr d'" by simp
  from csv_loop_keep [OF this assms(5)] have "map_of d' n = Some u"
    by (simp add: AList.update_conv')
  then show ?thesis by (rule map_of_SomeD)
qed

lemma read_universities_distinct:
  "read_universities csv = Inr universities \<Longrightarrow> distinct (map fst universities)"
  by (cases csv) (auto simp: read_universities_def dest: csv_loop_distinct)

lemma generate_logos_ok:
  "read_universities (csv_file fs) = Inr universities \<Longrightarrow>
   generate_logos fs = (None, fs\<lparr>ts_file := Some (join [10] (ts_lines universities))\<rparr>)"
  by (simp add: generate_logos_def)

subsection \<open>The sorted entry lines\<close>

lemma sorted_before:
  fixes x y :: "'a::linorder"
  assumes "sorted xs" and "x \<in> set xs" and "y \<in> set xs" and "x < y"
  shows "\<exists>i j. i < j \<and> j < length xs \<and> xs ! i = x \<and> xs ! j = y"
proof -
  from assms(2,3) obtain i j where ij: "i < length xs" "xs ! i = x" "j < length xs" "xs ! j = y"
    by (auto simp: in_set_conv_nth)
  have "i < j"
  proof (rule ccontr)
    assume "\<not> i < j"
    then have "j \<le> i" by simp
    from sorted_nth_mono [OF assms(1) this ij(1)] have "xs ! j \<le> xs ! i" .
    with ij assms(4) show False by simp
  qed
  with ij show ?thesis by blast
qed

lemma entry_line_in_ts_lines:
  "item \<in> set universities \<Longrightarrow> entry_line item \<in> set (ts_lines universities)"
  by (simp add: ts_lines_def entry_lines_def)

lemma ts_lines_nth:
  "i < length universities \<Longrightarrow>
   ts_lines universities ! (5 + i) = entry_line (sort universities ! i)"
  by (simp add: ts_lines_def entry_lines_def header_lines_def nth_append)

subsection \<open>Rows and maps\<close>

lemma fold_upd_None:
  "fold (\<lambda>(k, v) d. d(k \<mapsto> v)) kvs m k = None \<longleftrightarrow> m k = None \<and> k \<notin> fst ` set kvs"
  by (induction kvs arbitrary: m) (auto split: prod.splits)

lemma fold_upd_notin:
  "k \<notin> fst ` set kvs \<Longrightarrow> fold (\<lambda>(k, v) d. d(k \<mapsto> v)) kvs m k = m k"
  by (induction kvs arbitrary: m) (auto split: prod.splits)

lemma dict_row_None: "dict_row fieldnames record k = None \<longleftrightarrow> k \<notin> set fieldnames"
proof -
  have "map fst (zip fieldnames
          (map Some record @ replicate (length fieldnames - length record) None)) = fieldnames"
    by (simp add: map_fst_zip_take)
  then have "fst ` set (zip fieldnames
          (map Some record @ replicate (length fieldnames - length record) None)) = set fieldnames"
    by (metis list.set_map)
  then show ?thesis
    unfolding dict_row_def fold_upd_None by simp
qed

lemma csv_loop_first_error:
  "get_name row = Inl e \<or> get_logo_url row = Inl e \<Longrightarrow> \<exists>e'. csv_loop (row # rows) d = Inl e'"
  by (auto split: sum.splits)

lemma DictReader_nonempty:
  assumes "r \<in> set rest" and "r \<noteq> []"
  obtains fields rows where "DictReader (fieldnames # rest) = dict_row fieldnames fields # rows"
proof -
  from assms have "filter (\<lambda>r. r \<noteq> []) rest \<noteq> []"
    by (auto simp: filter_empty_conv)
  then obtain fields recs where "filter (\<lambda>r. r \<noteq> []) rest = fields # recs"
    by (cases "filter (\<lambda>r. r \<noteq> []) rest") auto
  then have "DictReader (fieldnames # rest) = dict_row fieldnames fields # map (dict_row fieldnames) recs"
    by (simp add: DictReader_def)
  then show ?thesis by (rule that)
qed

lemma sort_distinct_keys:
  "distinct (map fst (xs :: dict)) \<Longrightarrow> distinct (map fst (sort xs))"
  by (simp add: distinct_map)

lemma downstream_last:
  assumes "sorted (xs :: dict)" and "distinct (map fst xs)" and "(b, url_b) \<in> set xs"
    and "\<forall>(c, url_c)\<in>set xs. short_key c = short_key b \<longrightarrow> c \<le> b"
  shows "downstream_mapping (map (\<lambda>(name, url). (short_key name, url)) xs) (short_key b) = Some url_b"
proof -
  from assms(3) obtain pre post where xs: "xs = pre @ (b, url_b) # post"
    by (auto dest: split_list)
  from assms(1) have post_ge: "\<forall>y\<in>set post. (b, url_b) \<le> y"
    unfolding xs by (simp add: sorted_append)
  from assms(2) have post_ne: "b \<notin> fst ` set post"
    unfolding xs by simp
  have "short_key b \<notin> fst ` set (map (\<lambda>(name, url). (short_key name, url)) post)"
  proof
    assume "short_key b \<in> fst ` set (map (\<lambda>(name, url). (short_key name, url)) post)"
    then obtain c url_c where c: "(c, url_c) \<in> set post" "short_key c = short_key b"
      by auto
    from c(1) have "(c, url_c) \<in> set xs" unfolding xs by simp
    with assms(4) c(2) have "c \<le> b" by blast
    moreover from post_ge c(1) have "(b, url_b) \<le> (c, url_c)" by blast
    then have "b \<le> c" by auto
    moreover from post_ne c(1) have "c \<noteq> b" by force
    ultimately show False by simp
  qed
  then have "fold (\<lambda>(k, v) d. d(k \<mapsto> v)) (map (\<lambda>(name, url). (short_key name, url)) post)
      (m(short_key b \<mapsto> url_b)) (short_key b) = Some url_b" for m
    by (simp add: fold_upd_notin)
  then show ?thesis
    unfolding downstream_mapping_def xs by simp
qed

lemma str_contains_nonempty: "str_contains (p # ps) s \<Longrightarrow> s \<noteq> []"
  by (cases s) auto

subsection \<open>Claims about the mapping generator\<close>

lemmas logos_eval = read_universities_def DictReader_def dict_row_def get_name_def
  get_logo_url_def valid_url_def strip_def isspace_def str_def generate_logos_def
  ts_lines_def entry_lines_def entry_line_def header_lines_def short_key_def alnum_def

text \<open>
  C1. For every CSV row that passes the URL filter, the mapping has an entry under the
  row's stripped name, and the line written for it is two spaces, then in single quotes the
  row's university name with every character that is not an ASCII letter or digit removed,
  a colon and a space, the URL in single quotes and a comma. In particular the CSV file
  with the one row \<^verbatim>\<open>Quaid-i-Azam University\<close>, \<^verbatim>\<open>https://example.com/logo.png\<close> gives a file
  whose only entry line is \<^verbatim>\<open>  'QuaidiAzamUniversity': 'https://example.com/logo.png',\<close>.
\<close>

theorem C1_key_is_sanitized_name:
  assumes "read_universities (Some records) = Inr universities"
    and "row \<in> set (DictReader records)"
    and "row (str ''university_name'') = Some (Some raw_name)"
    and "get_logo_url row = Inr logo_url"
    and "valid_url logo_url"
  shows "(\<exists>url. (strip raw_name, url) \<in> set universities \<and>
            entry_line (strip raw_name, url) \<in> set (ts_lines universities) \<and>
            entry_line (strip raw_name, url) =
              str ''  '' @ [39] @ filter (\<lambda>c. c \<in> {48..57} \<union> {65..90} \<union> {97..122}) raw_name @
              [39] @ str '': '' @ [39] @ url @ [39] @ str '','') \<and>
         generate_logos
           \<lparr>csv_file = Some [[str ''university_name'', str ''logo_url''],
              [str ''Quaid-i-Azam University'', str ''https://example.com/logo.png'']],
            ts_file = None\<rparr> =
         (None,
           \<lparr>csv_file = Some [[str ''university_name'', str ''logo_url''],
              [str ''Quaid-i-Azam University'', str ''https://example.com/logo.png'']],
            ts_file = Some (join [10]
              [str ''export const UNIVERSITY_LOGO_MAP: Record<string, string> = {'',
               str ''  // All 257 Pakistani Universities - Logo URLs from Official Sources'',
               str ''  // Updated: January 2026'',
               str ''  // Auto-generated from CSV data'',
               str '''',
               str ''  'QuaidiAzamUniversity': 'https://example.com/logo.png','',
               str ''};''])\<rparr>)"
proof
  from assms(3) have n: "get_name row = Inr (strip raw_name)"
    by (simp add: get_name_def)
  from assms(1) have "csv_loop (DictReader records) [] = Inr universities"
    by (simp add: read_universities_def)
  from csv_loop_key [OF this assms(2) n assms(4,5)]
  obtain url where u: "(strip raw_name, url) \<in> set universities" by auto
  have "filter (\<lambda>c. c \<in> {48..57} \<union> {65..90} \<union> {97..122}) raw_name = short_key (strip raw_name)"
    unfolding short_key_strip by (simp add: short_key_def alnum_ranges [abs_def])
  then have "entry_line (strip raw_name, url) =
              str ''  '' @ [39] @ filter (\<lambda>c. c \<in> {48..57} \<union> {65..90} \<union> {97..122}) raw_name @
              [39] @ str '': '' @ [39] @ url @ [39] @ str '',''"
    by (simp add: entry_line_def)
  with u entry_line_in_ts_lines [OF u]
  show "\<exists>url. (strip raw_name, url) \<in> set universities \<and>
            entry_line (strip raw_name, url) \<in> set (ts_lines universities) \<and>
            entry_line (strip raw_name, url) =
              str ''  '' @ [39] @ filter (\<lambda>c. c \<in> {48..57} \<union> {65..90} \<union> {97..122}) raw_name @
              [39] @ str '': '' @ [39] @ url @ [39] @ str '',''"
    by blast
next
  show "generate_logos
           \<lparr>csv_file = Some [[str ''university_name'', str ''logo_url''],
              [str ''Quaid-i-Azam University'', str ''https://example.com/logo.png'']],
            ts_file = None\<rparr> =
         (None,
           \<lparr>csv_file = Some [[str ''university_name'', str ''logo_url''],
              [str ''Quaid-i-Azam University'', str ''https://example.com/logo.png'']],
            ts_file = Some (join [10]
              [str ''export const UNIVERSITY_LOGO_MAP: Record<string, string> = {'',
               str ''  // All 257 Pakistani Universities - Logo URLs from Official Sources'',
               str ''  // Updated: January 2026'',
               str ''  // Auto-generated from CSV data'',
               str '''',
               str ''  'QuaidiAzamUniversity': 'https://example.com/logo.png','',
               str ''};''])\<rparr>)"
    by (simp add: logos_eval)
qed

theorem C1_witness:
  "read_universities (Some [[str ''university_name'', str ''logo_url''],
       [str ''  Quaid-i-Azam University '', str ''https://example.com/logo.png'']]) =
     Inr [(str ''Quaid-i-Azam University'', str ''https://example.com/logo.png'')] \<and>
   valid_url (str ''https://example.com/logo.png'') \<and>
   (\<exists>url. (strip (str ''  Quaid-i-Azam University ''), url) \<in>
            set [(str ''Quaid-i-Azam University'', str ''https://example.com/logo.png'')] \<and>
          entry_line (strip (str ''  Quaid-i-Azam University ''), url) =
            str ''  'QuaidiAzamUniversity': '' @ [39] @ url @ [39] @ str '','')"
proof -
  let ?records = "[[str ''university_name'', str ''logo_url''],
       [str ''  Quaid-i-Azam University '', str ''https://example.com/logo.png'']]"
  let ?row = "dict_row [str ''university_name'', str ''logo_url'']
       [str ''  Quaid-i-Azam University '', str ''https://example.com/logo.png'']"
  have h1: "read_universities (Some ?records) =
     Inr [(str ''Quaid-i-Azam University'', str ''https://example.com/logo.png'')]"
    by (simp add: logos_eval)
  have h2: "?row \<in> set (DictReader ?records)"
    by (simp add: DictReader_def)
  have h3: "?row (str ''university_name'') = Some (Some (str ''  Quaid-i-Azam University ''))"
    by (simp add: dict_row_def str_def)
  have h4: "get_logo_url ?row = Inr (str ''https://example.com/logo.png'')"
    by (simp add: logos_eval)
  have h5: "valid_url (str ''https://example.com/logo.png'')"
    by (simp add: logos_eval)
  have e: "str ''  '' @ [39] @
      filter (\<lambda>c. c \<in> {48..57} \<union> {65..90} \<union> {97..122}) (str ''  Quaid-i-Azam University '') @
      [39] @ str '': '' = str ''  'QuaidiAzamUniversity': ''"
    by (simp add: str_def)
  from C1_key_is_sanitized_name [OF h1 h2 h3 h4 h5, THEN conjunct1]
  obtain url where
    "(strip (str ''  Quaid-i-Azam University ''), url) \<in>
       set [(str ''Quaid-i-Azam University'', str ''https://example.com/logo.png'')]"
    "entry_line (strip (str ''  Quaid-i-Azam University ''), url) =
       str ''  '' @ [39] @
       filter (\<lambda>c. c \<in> {48..57} \<union> {65..90} \<union> {97..122}) (str ''  Quaid-i-Azam University '') @
       [39] @ str '': '' @ [39] @ url @ [39] @ str '',''"
    by blast
  with e have
    "(strip (str ''  Quaid-i-Azam University ''), url) \<in>
       set [(str ''Quaid-i-Azam University'', str ''https://example.com/logo.png'')] \<and>
     entry_line (strip (str ''  Quaid-i-Azam University ''), url) =
       str ''  'QuaidiAzamUniversity': '' @ [39] @ url @ [39] @ str '',''"
    by (metis append_assoc)
  with h1 h5 show ?thesis by blast
qed

text \<open>
  Two rows with the same name and two different URLs, neither of them disqualified: the
  mapping and the file hold the second URL only, so the first row is not in the mapping
  although its URL passes the filter.
\<close>

theorem C2_counterexample:
  "read_universities (Some [[str ''university_name'', str ''logo_url''],
       [str ''A'', str ''http://x''], [str ''A'', str ''http://y'']]) =
     Inr [(str ''A'', str ''http://y'')] \<and>
   get_name (dict_row [str ''university_name'', str ''logo_url''] [str ''A'', str ''http://x''])
     = Inr (str ''A'') \<and>
   get_logo_url (dict_row [str ''university_name'', str ''logo_url''] [str ''A'', str ''http://x''])
     = Inr (str ''http://x'') \<and>
   \<not> (str ''http://x'' = [] \<or> str_contains (str ''#/media'') (str ''http://x'') \<or>
      str_contains (str ''data:image'') (str ''http://x'') \<or>
      str_contains (str ''Not have'') (str ''http://x'') \<or>
      str_contains (str ''Dangerous'') (str ''http://x'')) \<and>
   (str ''A'', str ''http://x'') \<notin> set [(str ''A'', str ''http://y'')] \<and>
   ts_lines [(str ''A'', str ''http://y'')] =
     [str ''export const UNIVERSITY_LOGO_MAP: Record<string, string> = {'',
      str ''  // All 257 Pakistani Universities - Logo URLs from Official Sources'',
      str ''  // Updated: January 2026'',
      str ''  // Auto-generated from CSV data'',
      str '''',
      str ''  'A': 'http://y','',
      str ''};'']"
  by (simp add: logos_eval)

text \<open>
  C2 (amended). For a row that no later stored row shares its stripped name with: the row's
  (name, URL) pair is missing from the generated mapping if and only if its stripped URL is
  empty or contains one of \<^verbatim>\<open>#/media\<close>, \<^verbatim>\<open>data:image\<close>, \<^verbatim>\<open>Not have\<close>, \<^verbatim>\<open>Dangerous\<close>,
  whatever its name is.
\<close>

theorem C2_excluded_iff_disqualified_or_replaced:
  assumes "read_universities (Some records) = Inr universities"
    and "DictReader records = before @ row # after"
    and "get_name row = Inr name" and "get_logo_url row = Inr logo_url"
    and "\<forall>r\<in>set after. get_name r = Inr name \<longrightarrow>
           (\<forall>u. get_logo_url r = Inr u \<longrightarrow> \<not> valid_url u)"
  shows "(name, logo_url) \<notin> set universities \<longleftrightarrow>
           logo_url = [] \<or> str_contains (str ''#/media'') logo_url \<or>
           str_contains (str ''data:image'') logo_url \<or>
           str_contains (str ''Not have'') logo_url \<or>
           str_contains (str ''Dangerous'') logo_url"
proof -
  from assms(1,2) have loop: "csv_loop (before @ row # after) [] = Inr universities"
    by (simp add: read_universities_def)
  have "(name, logo_url) \<in> set universities \<longleftrightarrow> valid_url logo_url"
  proof
    assume "(name, logo_url) \<in> set universities"
    from csv_loop_entry [OF loop this] show "valid_url logo_url" by auto
  next
    assume "valid_url logo_url"
    from csv_loop_last [OF loop assms(3,4) this assms(5)]
    show "(name, logo_url) \<in> set universities" .
  qed
  then show ?thesis by (auto simp: valid_url_def)
qed

theorem C2_witness:
  "read_universities (Some [[str ''university_name'', str ''logo_url''],
       [str ''A'', str ''http://x''], [str ''B'', str ''see #/media/File:B.png''],
       [str ''A'', str ''data:image/png;base64,AAAA'']]) =
     Inr [(str ''A'', str ''http://x'')] \<and>
   ((str ''A'', str ''http://x'') \<in> set [(str ''A'', str ''http://x'')]) \<and>
   \<not> str_contains (str ''#/media'') (str ''http://x'') \<and>
   ((str ''B'', str ''see #/media/File:B.png'') \<notin> set [(str ''A'', str ''http://x'')]) \<and>
   str_contains (str ''#/media'') (str ''see #/media/File:B.png'')"
proof -
  let ?h = "[str ''university_name'', str ''logo_url'']"
  let ?r1 = "[str ''A'', str ''http://x'']"
  let ?r2 = "[str ''B'', str ''see #/media/File:B.png'']"
  let ?r3 = "[str ''A'', str ''data:image/png;base64,AAAA'']"
  have h1: "read_universities (Some [?h, ?r1, ?r2, ?r3]) = Inr [(str ''A'', str ''http://x'')]"
    by (simp add: logos_eval)
  have h2: "DictReader [?h, ?r1, ?r2, ?r3] = [] @ dict_row ?h ?r1 # [dict_row ?h ?r2, dict_row ?h ?r3]"
    by (simp add: DictReader_def)
  have h2': "DictReader [?h, ?r1, ?r2, ?r3] = [dict_row ?h ?r1] @ dict_row ?h ?r2 # [dict_row ?h ?r3]"
    by (simp add: DictReader_def)
  have h3: "get_name (dict_row ?h ?r1) = Inr (str ''A'')" by (simp add: logos_eval)
  have h4: "get_logo_url (dict_row ?h ?r1) = Inr (str ''http://x'')" by (simp add: logos_eval)
  have h5: "\<forall>r\<in>set [dict_row ?h ?r2, dict_row ?h ?r3]. get_name r = Inr (str ''A'') \<longrightarrow>
           (\<forall>u. get_logo_url r = Inr u \<longrightarrow> \<not> valid_url u)"
    by (simp add: logos_eval)
  have k3: "get_name (dict_row ?h ?r2) = Inr (str ''B'')" by (simp add: logos_eval)
  have k4: "get_logo_url (dict_row ?h ?r2) = Inr (str ''see #/media/File:B.png'')"
    by (simp add: logos_eval)
  have k5: "\<forall>r\<in>set [dict_row ?h ?r3]. get_name r = Inr (str ''B'') \<longrightarrow>
           (\<forall>u. get_logo_url r = Inr u \<longrightarrow> \<not> valid_url u)"
    by (simp add: logos_eval)
  have c: "str_contains (str ''#/media'') (str ''see #/media/File:B.png'')"
    by (simp add: str_def)
  from C2_excluded_iff_disqualified_or_replaced [OF h1 h2 h3 h4 h5]
    C2_excluded_iff_disqualified_or_replaced [OF h1 h2' k3 k4 k5] h1 c
  show ?thesis by simp
qed

text \<open>
  C3. The entry lines of the generated file are sorted by the stripped name, before
  sanitization: of two entries of the mapping with names \<open>a < b\<close> (lexicographic order),
  the line of \<open>a\<close> comes before the line of \<open>b\<close>. Entry lines start at index 5, after
  the five header lines.
\<close>

theorem C3_entries_sorted_by_name:
  assumes "read_universities (csv_file fs) = Inr universities"
    and "(a, url_a) \<in> set universities" and "(b, url_b) \<in> set universities"
    and "a < b"
  shows "generate_logos fs = (None, fs\<lparr>ts_file := Some (join [10] (ts_lines universities))\<rparr>) \<and>
         (\<exists>i j. i < j \<and> j < length universities \<and>
            ts_lines universities ! (5 + i) = entry_line (a, url_a) \<and>
            ts_lines universities ! (5 + j) = entry_line (b, url_b))"
proof
  show "generate_logos fs = (None, fs\<lparr>ts_file := Some (join [10] (ts_lines universities))\<rparr>)"
    using assms(1) by (rule generate_logos_ok)
next
  have "sorted (sort universities)" by simp
  moreover have "(a, url_a) \<in> set (sort universities)" "(b, url_b) \<in> set (sort universities)"
    using assms(2,3) by simp_all
  moreover have "(a, url_a) < (b, url_b)" using assms(4) by simp
  ultimately obtain i j where ij: "i < j" "j < length (sort universities)"
    "sort universities ! i = (a, url_a)" "sort universities ! j = (b, url_b)"
    using sorted_before by blast
  then have "i < length universities" "j < length universities" by simp_all
  with ij ts_lines_nth [of i universities] ts_lines_nth [of j universities]
  show "\<exists>i j. i < j \<and> j < length universities \<and>
            ts_lines universities ! (5 + i) = entry_line (a, url_a) \<and>
            ts_lines universities ! (5 + j) = entry_line (b, url_b)"
    by auto
qed

theorem C3_witness:
  "read_universities (Some [[str ''university_name'', str ''logo_url''],
       [str ''Zed'', str ''http://z''], [str ''Abc University'', str ''http://a'']]) =
     Inr [(str ''Zed'', str ''http://z''), (str ''Abc University'', str ''http://a'')] \<and>
   str ''Abc University'' < str ''Zed'' \<and>
   (\<exists>i j. i < j \<and> j < length [(str ''Zed'', str ''http://z''), (str ''Abc University'', str ''http://a'')] \<and>
      ts_lines [(str ''Zed'', str ''http://z''), (str ''Abc University'', str ''http://a'')] ! (5 + i)
        = entry_line (str ''Abc University'', str ''http://a'') \<and>
      ts_lines [(str ''Zed'', str ''http://z''), (str ''Abc University'', str ''http://a'')] ! (5 + j)
        = entry_line (str ''Zed'', str ''http://z''))"
proof -
  let ?fs = "\<lparr>csv_file = Some [[str ''university_name'', str ''logo_url''],
       [str ''Zed'', str ''http://z''], [str ''Abc University'', str ''http://a'']], ts_file = None\<rparr>"
  let ?u = "[(str ''Zed'', str ''http://z''), (str ''Abc University'', str ''http://a'')]"
  have h1: "read_universities (csv_file ?fs) = Inr ?u"
    by (simp add: logos_eval)
  have h2: "(str ''Abc University'', str ''http://a'') \<in> set ?u" by simp
  have h3: "(str ''Zed'', str ''http://z'') \<in> set ?u" by simp
  have h4: "str ''Abc University'' < str ''Zed''" by (simp add: str_def)
  from C3_entries_sorted_by_name [OF h1 h2 h3 h4] h1 h4 show ?thesis by simp
qed

text \<open>
  C4. A run that raises leaves every file as it was, so the output file is not written:
  this is so when the CSV file is missing (\<^verbatim>\<open>FileNotFoundError\<close>) and when the header lacks
  \<^verbatim>\<open>university_name\<close> or \<^verbatim>\<open>logo_url\<close> and there is a row to read. The output file is
  written only by a run that has read the whole CSV file, and then holds all lines.
\<close>

theorem C4_no_write_on_error:
  "(csv_file fs = None \<longrightarrow> generate_logos fs = (Some FileNotFoundError, fs)) \<and>
   (\<forall>fieldnames rest. csv_file fs = Some (fieldnames # rest) \<and> (\<exists>r\<in>set rest. r \<noteq> []) \<and>
       str ''university_name'' \<notin> set fieldnames \<longrightarrow>
       generate_logos fs = (Some (KeyError (str ''university_name'')), fs)) \<and>
   (\<forall>fieldnames rest. csv_file fs = Some (fieldnames # rest) \<and> (\<exists>r\<in>set rest. r \<noteq> []) \<and>
       str ''logo_url'' \<notin> set fieldnames \<longrightarrow>
       (\<exists>e. generate_logos fs = (Some e, fs))) \<and>
   (\<forall>e. fst (generate_logos fs) = Some e \<longrightarrow> snd (generate_logos fs) = fs) \<and>
   (fst (generate_logos fs) = None \<longrightarrow>
       (\<exists>universities. read_universities (csv_file fs) = Inr universities \<and>
          snd (generate_logos fs) = fs\<lparr>ts_file := Some (join [10] (ts_lines universities))\<rparr>))"
proof (intro conjI allI impI)
  assume "csv_file fs = None"
  then show "generate_logos fs = (Some FileNotFoundError, fs)"
    by (simp add: generate_logos_def read_universities_def)
next
  fix fieldnames rest
  assume a: "csv_file fs = Some (fieldnames # rest) \<and> (\<exists>r\<in>set rest. r \<noteq> []) \<and>
       str ''university_name'' \<notin> set fieldnames"
  then obtain r where "r \<in> set rest" "r \<noteq> []" by blast
  then obtain fields rows where d: "DictReader (fieldnames # rest) = dict_row fieldnames fields # rows"
    by (rule DictReader_nonempty)
  from a have "dict_row fieldnames fields (str ''university_name'') = None"
    by (simp add: dict_row_None)
  then have "get_name (dict_row fieldnames fields) = Inl (KeyError (str ''university_name''))"
    by (simp add: get_name_def)
  with a d show "generate_logos fs = (Some (KeyError (str ''university_name'')), fs)"
    by (simp add: generate_logos_def read_universities_def)
next
  fix fieldnames rest
  assume a: "csv_file fs = Some (fieldnames # rest) \<and> (\<exists>r\<in>set rest. r \<noteq> []) \<and>
       str ''logo_url'' \<notin> set fieldnames"
  then obtain r where "r \<in> set rest" "r \<noteq> []" by blast
  then obtain fields rows where d: "DictReader (fieldnames # rest) = dict_row fieldnames fields # rows"
    by (rule DictReader_nonempty)
  from a have "dict_row fieldnames fields (str ''logo_url'') = None"
    by (simp add: dict_row_None)
  then have "get_logo_url (dict_row fieldnames fields) = Inl (KeyError (str ''logo_url''))"
    by (simp add: get_logo_url_def)
  then obtain e where "csv_loop (dict_row fieldnames fields # rows) [] = Inl e"
    using csv_loop_first_error by blast
  with a d show "\<exists>e. generate_logos fs = (Some e, fs)"
    by (simp add: generate_logos_def read_universities_def)
next
  fix e
  assume "fst (generate_logos fs) = Some e"
  then show "snd (generate_logos fs) = fs"
    by (auto simp: generate_logos_def split: sum.splits)
next
  assume "fst (generate_logos fs) = None"
  then show "\<exists>universities. read_universities (csv_file fs) = Inr universities \<and>
          snd (generate_logos fs) = fs\<lparr>ts_file := Some (join [10] (ts_lines universities))\<rparr>"
    by (auto simp: generate_logos_def split: sum.splits)
qed

theorem C4_witness:
  "generate_logos \<lparr>csv_file = None, ts_file = Some (str ''old'')\<rparr> =
     (Some FileNotFoundError, \<lparr>csv_file = None, ts_file = Some (str ''old'')\<rparr>) \<and>
   generate_logos \<lparr>csv_file = Some [[str ''name'', str ''logo_url''], [str ''A'', str ''http://a'']],
       ts_file = Some (str ''old'')\<rparr> =
     (Some (KeyError (str ''university_name'')),
      \<lparr>csv_file = Some [[str ''name'', str ''logo_url''], [str ''A'', str ''http://a'']],
       ts_file = Some (str ''old'')\<rparr>) \<and>
   ts_file (snd (generate_logos
      \<lparr>csv_file = Some [[str ''university_name'', str ''url''], [str ''A'', str ''http://a'']],
       ts_file = Some (str ''old'')\<rparr>)) = Some (str ''old'') \<and>
   ts_file (snd (generate_logos
      \<lparr>csv_file = Some [[str ''university_name'', str ''logo_url''], [str ''A'', str ''http://a'']],
       ts_file = Some (str ''old'')\<rparr>)) =
     Some (join [10] (ts_lines [(str ''A'', str ''http://a'')])) \<and>
   fst (generate_logos
      \<lparr>csv_file = Some [[str ''logo_url'', str ''university_name''], [str ''http://a'']],
       ts_file = Some (str ''old'')\<rparr>) = Some AttributeError \<and>
   snd (generate_logos
      \<lparr>csv_file = Some [[str ''logo_url'', str ''university_name''], [str ''http://a'']],
       ts_file = Some (str ''old'')\<rparr>) =
     \<lparr>csv_file = Some [[str ''logo_url'', str ''university_name''], [str ''http://a'']],
       ts_file = Some (str ''old'')\<rparr>"
proof -
  let ?f1 = "\<lparr>csv_file = None, ts_file = Some (str ''old'')\<rparr>"
  let ?f2 = "\<lparr>csv_file = Some [[str ''name'', str ''logo_url''], [str ''A'', str ''http://a'']],
       ts_file = Some (str ''old'')\<rparr>"
  let ?f3 = "\<lparr>csv_file = Some [[str ''university_name'', str ''url''], [str ''A'', str ''http://a'']],
       ts_file = Some (str ''old'')\<rparr>"
  let ?f4 = "\<lparr>csv_file = Some [[str ''university_name'', str ''logo_url''], [str ''A'', str ''http://a'']],
       ts_file = Some (str ''old'')\<rparr>"
  have a1: "csv_file ?f1 = None" by simp
  have a2: "csv_file ?f2 = Some ([str ''name'', str ''logo_url''] # [[str ''A'', str ''http://a'']]) \<and>
     (\<exists>r\<in>set [[str ''A'', str ''http://a'']]. r \<noteq> []) \<and>
     str ''university_name'' \<notin> set [str ''name'', str ''logo_url'']"
    by (simp add: str_def)
  have a3: "csv_file ?f3 = Some ([str ''university_name'', str ''url''] # [[str ''A'', str ''http://a'']]) \<and>
     (\<exists>r\<in>set [[str ''A'', str ''http://a'']]. r \<noteq> []) \<and>
     str ''logo_url'' \<notin> set [str ''university_name'', str ''url'']"
    by (simp add: str_def)
  let ?f5 = "\<lparr>csv_file = Some [[str ''logo_url'', str ''university_name''], [str ''http://a'']],
       ts_file = Some (str ''old'')\<rparr>"
  have a5: "fst (generate_logos ?f5) = Some AttributeError" by (simp add: logos_eval)
  from C4_no_write_on_error [of ?f5] a5 have c5: "snd (generate_logos ?f5) = ?f5"
    by blast
  have a4: "fst (generate_logos ?f4) = None" by (simp add: logos_eval)
  have r4: "read_universities (csv_file ?f4) = Inr [(str ''A'', str ''http://a'')]"
    by (simp add: logos_eval)
  from C4_no_write_on_error [of ?f1] a1 have c1: "generate_logos ?f1 = (Some FileNotFoundError, ?f1)"
    by blast
  from C4_no_write_on_error [of ?f2] a2
  have c2: "generate_logos ?f2 = (Some (KeyError (str ''university_name'')), ?f2)"
    by blast
  from C4_no_write_on_error [of ?f3] a3 obtain e where "generate_logos ?f3 = (Some e, ?f3)"
    by blast
  then have c3: "ts_file (snd (generate_logos ?f3)) = Some (str ''old'')" by simp
  from C4_no_write_on_error [of ?f4] a4 obtain universities where
    "read_universities (csv_file ?f4) = Inr universities"
    "snd (generate_logos ?f4) = ?f4\<lparr>ts_file := Some (join [10] (ts_lines universities))\<rparr>"
    by blast
  with r4 have c4: "ts_file (snd (generate_logos ?f4)) =
      Some (join [10] (ts_lines [(str ''A'', str ''http://a'')]))"
    by simp
  from c1 c2 c3 c4 a5 c5 show ?thesis by blast
qed

text \<open>
  C5. Collisions of sanitized keys are neither checked nor resolved: when two names of the
  mapping, \<open>a < b\<close>, have the same sanitized key, the file has one entry line per name of
  the mapping, among them a line with that key for the URL of \<open>a\<close> and, after it, a line
  with the same key for the URL of \<open>b\<close>; and when \<open>b\<close> is the last name with that key,
  the downstream mapping, where a later entry overwrites an earlier one, holds the URL of
  \<open>b\<close> under the key.
\<close>

theorem C5_collisions_not_resolved:
  assumes "read_universities (Some records) = Inr universities"
    and "(a, url_a) \<in> set universities" and "(b, url_b) \<in> set universities"
    and "a < b" and "short_key a = short_key b"
    and "\<forall>(c, url_c)\<in>set universities. short_key c = short_key b \<longrightarrow> c \<le> b"
  shows "length (entry_lines universities) = length universities \<and>
         (\<exists>i j. i < j \<and> j < length universities \<and>
            entry_lines universities ! i =
              str ''  '' @ [39] @ short_key b @ [39] @ str '': '' @ [39] @ url_a @ [39] @ str '','' \<and>
            entry_lines universities ! j =
              str ''  '' @ [39] @ short_key b @ [39] @ str '': '' @ [39] @ url_b @ [39] @ str '','') \<and>
         downstream_mapping (map (\<lambda>(name, url). (short_key name, url)) (sort universities))
           (short_key b) = Some url_b"
proof (intro conjI)
  show "length (entry_lines universities) = length universities"
    by (simp add: entry_lines_def)
next
  have "sorted (sort universities)" by simp
  moreover have "(a, url_a) \<in> set (sort universities)" "(b, url_b) \<in> set (sort universities)"
    using assms(2,3) by simp_all
  moreover have "(a, url_a) < (b, url_b)" using assms(4) by simp
  ultimately obtain i j where ij: "i < j" "j < length (sort universities)"
    "sort universities ! i = (a, url_a)" "sort universities ! j = (b, url_b)"
    using sorted_before by blast
  then have lt: "i < length universities" "j < length universities" by simp_all
  with ij have "entry_lines universities ! i = entry_line (a, url_a)"
    "entry_lines universities ! j = entry_line (b, url_b)"
    by (simp_all add: entry_lines_def)
  then have "entry_lines universities ! i =
              str ''  '' @ [39] @ short_key b @ [39] @ str '': '' @ [39] @ url_a @ [39] @ str '',''"
    "entry_lines universities ! j =
              str ''  '' @ [39] @ short_key b @ [39] @ str '': '' @ [39] @ url_b @ [39] @ str '',''"
    using assms(5) by (simp_all add: entry_line_def)
  with ij(1) lt(2) show "\<exists>i j. i < j \<and> j < length universities \<and>
            entry_lines universities ! i =
              str ''  '' @ [39] @ short_key b @ [39] @ str '': '' @ [39] @ url_a @ [39] @ str '','' \<and>
            entry_lines universities ! j =
              str ''  '' @ [39] @ short_key b @ [39] @ str '': '' @ [39] @ url_b @ [39] @ str '',''"
    by blast
next
  have 1: "sorted (sort universities)" by simp
  have 2: "distinct (map fst (sort universities))"
    using read_universities_distinct [OF assms(1)] by (rule sort_distinct_keys)
  have 3: "(b, url_b) \<in> set (sort universities)" using assms(3) by simp
  have 4: "\<forall>(c, url_c)\<in>set (sort universities). short_key c = short_key b \<longrightarrow> c \<le> b"
    using assms(6) by simp
  show "downstream_mapping (map (\<lambda>(name, url). (short_key name, url)) (sort universities))
           (short_key b) = Some url_b"
    using 1 2 3 4 by (rule downstream_last)
qed

theorem C5_witness:
  "read_universities (Some [[str ''university_name'', str ''logo_url''],
       [str ''A-B'', str ''http://y''], [str ''A B'', str ''http://x'']]) =
     Inr [(str ''A-B'', str ''http://y''), (str ''A B'', str ''http://x'')] \<and>
   str ''A B'' < str ''A-B'' \<and> short_key (str ''A B'') = short_key (str ''A-B'') \<and>
   entry_lines [(str ''A-B'', str ''http://y''), (str ''A B'', str ''http://x'')] =
     [str ''  'AB': 'http://x','', str ''  'AB': 'http://y',''] \<and>
   downstream_mapping (map (\<lambda>(name, url). (short_key name, url))
       (sort [(str ''A-B'', str ''http://y''), (str ''A B'', str ''http://x'')]))
     (short_key (str ''A-B'')) = Some (str ''http://y'')"
proof -
  let ?recs = "[[str ''university_name'', str ''logo_url''],
       [str ''A-B'', str ''http://y''], [str ''A B'', str ''http://x'']]"
  let ?u = "[(str ''A-B'', str ''http://y''), (str ''A B'', str ''http://x'')]"
  have h1: "read_universities (Some ?recs) = Inr ?u" by (simp add: logos_eval)
  have h2: "(str ''A B'', str ''http://x'') \<in> set ?u" by simp
  have h3: "(str ''A-B'', str ''http://y'') \<in> set ?u" by simp
  have h4: "str ''A B'' < str ''A-B''" by (simp add: str_def)
  have h5: "short_key (str ''A B'') = short_key (str ''A-B'')"
    by (simp add: str_def short_key_def alnum_def)
  have h6: "\<forall>(c, url_c)\<in>set ?u. short_key c = short_key (str ''A-B'') \<longrightarrow> c \<le> str ''A-B''"
    by (simp add: str_def)
  have e: "entry_lines ?u = [str ''  'AB': 'http://x','', str ''  'AB': 'http://y','']"
    by (simp add: logos_eval)
  from C5_collisions_not_resolved [OF h1 h2 h3 h4 h5 h6]
  have d: "downstream_mapping (map (\<lambda>(name, url). (short_key name, url)) (sort ?u))
     (short_key (str ''A-B'')) = Some (str ''http://y'')"
    by (rule conjunct2 [THEN conjunct2])
  show ?thesis by (intro conjI) (rule h1, rule h4, rule h5, rule e, rule d)
qed

text \<open>
  C9. The URL filter is case-sensitive: a row whose URL contains \<^verbatim>\<open>not have\<close> or
  \<^verbatim>\<open>dangerous\<close>, and none of the four disqualifying substrings as they are spelled,
  passes the filter; its name has an entry in the output, and the entry is the row's own
  unless a later stored row has the same name.
\<close>

theorem C9_filter_case_sensitive:
  assumes "read_universities (Some records) = Inr universities"
    and "DictReader records = before @ row # after"
    and "get_name row = Inr name" and "get_logo_url row = Inr logo_url"
    and "str_contains (str ''not have'') logo_url \<or> str_contains (str ''dangerous'') logo_url"
    and "\<not> str_contains (str ''#/media'') logo_url"
    and "\<not> str_contains (str ''data:image'') logo_url"
    and "\<not> str_contains (str ''Not have'') logo_url"
    and "\<not> str_contains (str ''Dangerous'') logo_url"
  shows "valid_url logo_url \<and>
         (\<exists>url. (name, url) \<in> set universities \<and>
            entry_line (name, url) \<in> set (ts_lines universities)) \<and>
         ((\<forall>r\<in>set after. get_name r = Inr name \<longrightarrow>
             (\<forall>u. get_logo_url r = Inr u \<longrightarrow> \<not> valid_url u)) \<longrightarrow>
          (name, logo_url) \<in> set universities \<and>
          entry_line (name, logo_url) \<in> set (ts_lines universities))"
proof (intro conjI impI)
  from assms(5) have "logo_url \<noteq> []"
    by (auto simp: str_def dest: str_contains_nonempty)
  with assms(6-9) show v: "valid_url logo_url"
    by (simp add: valid_url_def)
  from assms(1,2) have loop: "csv_loop (before @ row # after) [] = Inr universities"
    by (simp add: read_universities_def)
  have "row \<in> set (before @ row # after)" by simp
  from csv_loop_key [OF loop this assms(3,4) v]
  obtain url where "(name, url) \<in> set universities" by auto
  then show "\<exists>url. (name, url) \<in> set universities \<and>
            entry_line (name, url) \<in> set (ts_lines universities)"
    using entry_line_in_ts_lines by blast
  assume "\<forall>r\<in>set after. get_name r = Inr name \<longrightarrow>
             (\<forall>u. get_logo_url r = Inr u \<longrightarrow> \<not> valid_url u)"
  from csv_loop_last [OF loop assms(3,4) v this]
  show "(name, logo_url) \<in> set universities" .
  then show "entry_line (name, logo_url) \<in> set (ts_lines universities)"
    by (rule entry_line_in_ts_lines)
qed

theorem C9_witness:
  "read_universities (Some [[str ''university_name'', str ''logo_url''],
       [str ''X University'', str ''http://x.org/dangerous/not have.png'']]) =
     Inr [(str ''X University'', str ''http://x.org/dangerous/not have.png'')] \<and>
   str_contains (str ''dangerous'') (str ''http://x.org/dangerous/not have.png'') \<and>
   str_contains (str ''not have'') (str ''http://x.org/dangerous/not have.png'') \<and>
   valid_url (str ''http://x.org/dangerous/not have.png'') \<and>
   entry_line (str ''X University'', str ''http://x.org/dangerous/not have.png'') \<in>
     set (ts_lines [(str ''X University'', str ''http://x.org/dangerous/not have.png'')]) \<and>
   entry_line (str ''X University'', str ''http://x.org/dangerous/not have.png'') =
     str ''  'XUniversity': 'http://x.org/dangerous/not have.png',''"
proof -
  let ?h = "[str ''university_name'', str ''logo_url'']"
  let ?r = "[str ''X University'', str ''http://x.org/dangerous/not have.png'']"
  let ?url = "str ''http://x.org/dangerous/not have.png''"
  let ?u = "[(str ''X University'', ?url)]"
  have h1: "read_universities (Some [?h, ?r]) = Inr ?u" by (simp add: logos_eval)
  have h2: "DictReader [?h, ?r] = [] @ dict_row ?h ?r # []" by (simp add: DictReader_def)
  have h3: "get_name (dict_row ?h ?r) = Inr (str ''X University'')" by (simp add: logos_eval)
  have h4: "get_logo_url (dict_row ?h ?r) = Inr ?url" by (simp add: logos_eval)
  have c1: "str_contains (str ''dangerous'') ?url" by (simp add: str_def)
  have c2: "str_contains (str ''not have'') ?url" by (simp add: str_def)
  have h5: "str_contains (str ''not have'') ?url \<or> str_contains (str ''dangerous'') ?url"
    using c1 by simp
  have h6: "\<not> str_contains (str ''#/media'') ?url" by (simp add: str_def)
  have h7: "\<not> str_contains (str ''data:image'') ?url" by (simp add: str_def)
  have h8: "\<not> str_contains (str ''Not have'') ?url" by (simp add: str_def)
  have h9: "\<not> str_contains (str ''Dangerous'') ?url" by (simp add: str_def)
  have l: "\<forall>r\<in>set []. get_name r = Inr (str ''X University'') \<longrightarrow>
             (\<forall>u. get_logo_url r = Inr u \<longrightarrow> \<not> valid_url u)" by simp
  have e: "entry_line (str ''X University'', ?url) =
     str ''  'XUniversity': 'http://x.org/dangerous/not have.png',''"
    by (simp add: logos_eval)
  note t = C9_filter_case_sensitive [OF h1 h2 h3 h4 h5 h6 h7 h8 h9]
  from t have v: "valid_url ?url" by (rule conjunct1)
  from t l have m: "entry_line (str ''X University'', ?url) \<in> set (ts_lines ?u)" by blast
  show ?thesis by (intro conjI) (rule h1, rule c1, rule c2, rule v, rule m, rule e)
qed

text \<open>
  C10. A row that passes the URL filter and whose name has no ASCII letter or digit still
  has an entry in the output, with the empty key: the line is two spaces, two single
  quotes, a colon and a space, the URL in single quotes and a comma. No entry of the mapping
  is dropped after sanitization: there are as many entry lines as names in the mapping.
\<close>

theorem C10_empty_key_entry:
  assumes "read_universities (Some records) = Inr universities"
    and "row \<in> set (DictReader records)"
    and "row (str ''university_name'') = Some (Some raw_name)"
    and "get_logo_url row = Inr logo_url"
    and "valid_url logo_url"
    and "\<forall>c\<in>set raw_name. c \<notin> {48..57} \<union> {65..90} \<union> {97..122}"
  shows "short_key (strip raw_name) = [] \<and>
         (\<exists>url. (strip raw_name, url) \<in> set universities \<and>
            str ''  '' @ [39, 39] @ str '': '' @ [39] @ url @ [39] @ str '','' \<in> set (ts_lines universities)) \<and>
         length (entry_lines universities) = length universities"
proof (intro conjI)
  from assms(6) have "filter alnum raw_name = []"
    by (auto simp: filter_empty_conv alnum_ranges)
  then show k: "short_key (strip raw_name) = []"
    unfolding short_key_strip by (simp add: short_key_def)
  from assms(3) have n: "get_name row = Inr (strip raw_name)"
    by (simp add: get_name_def)
  from assms(1) have "csv_loop (DictReader records) [] = Inr universities"
    by (simp add: read_universities_def)
  from csv_loop_key [OF this assms(2) n assms(4,5)]
  obtain url where u: "(strip raw_name, url) \<in> set universities" by auto
  from k have "entry_line (strip raw_name, url) = str ''  '' @ [39, 39] @ str '': '' @ [39] @ url @ [39] @ str '',''"
    by (simp add: entry_line_def str_def)
  with entry_line_in_ts_lines [OF u] u
  show "\<exists>url. (strip raw_name, url) \<in> set universities \<and>
            str ''  '' @ [39, 39] @ str '': '' @ [39] @ url @ [39] @ str '','' \<in> set (ts_lines universities)"
    by auto
  show "length (entry_lines universities) = length universities"
    by (simp add: entry_lines_def)
qed

theorem C10_witness:
  "read_universities (Some [[str ''university_name'', str ''logo_url''],
       [str '' - (?) '', str ''http://p'']]) = Inr [(str ''- (?)'', str ''http://p'')] \<and>
   valid_url (str ''http://p'') \<and>
   short_key (strip (str '' - (?) '')) = [] \<and>
   ts_lines [(str ''- (?)'', str ''http://p'')] ! 5 = str ''  '' @ [39, 39] @ str '': 'http://p','' \<and>
   (\<exists>url. (strip (str '' - (?) ''), url) \<in> set [(str ''- (?)'', str ''http://p'')] \<and>
      str ''  '' @ [39, 39] @ str '': '' @ [39] @ url @ [39] @ str '','' \<in> set (ts_lines [(str ''- (?)'', str ''http://p'')]))"
proof -
  let ?h = "[str ''university_name'', str ''logo_url'']"
  let ?r = "[str '' - (?) '', str ''http://p'']"
  let ?u = "[(str ''- (?)'', str ''http://p'')]"
  have h1: "read_universities (Some [?h, ?r]) = Inr ?u" by (simp add: logos_eval)
  have h2: "dict_row ?h ?r \<in> set (DictReader [?h, ?r])" by (simp add: DictReader_def)
  have h3: "dict_row ?h ?r (str ''university_name'') = Some (Some (str '' - (?) ''))"
    by (simp add: dict_row_def str_def)
  have h4: "get_logo_url (dict_row ?h ?r) = Inr (str ''http://p'')" by (simp add: logos_eval)
  have h5: "valid_url (str ''http://p'')" by (simp add: logos_eval)
  have h6: "\<forall>c\<in>set (str '' - (?) ''). c \<notin> {48..57} \<union> {65..90} \<union> {97..122}"
    by (simp add: str_def)
  have e: "ts_lines ?u ! 5 = str ''  '' @ [39, 39] @ str '': 'http://p',''" by (simp add: logos_eval)
  note t = C10_empty_key_entry [OF h1 h2 h3 h4 h5 h6]
  from t have k: "short_key (strip (str '' - (?) '')) = []" by (rule conjunct1)
  from t have x: "\<exists>url. (strip (str '' - (?) ''), url) \<in> set ?u \<and>
      str ''  '' @ [39, 39] @ str '': '' @ [39] @ url @ [39] @ str '','' \<in> set (ts_lines ?u)"
    by (rule conjunct2 [THEN conjunct1])
  show ?thesis by (intro conjI) (rule h1, rule h5, rule k, rule e, rule x)
qed

section \<open>Properties of the icon generator\<close>

subsection \<open>Inner sizes\<close>

text \<open>
  The literal \<^verbatim>\<open>0.78\<close> is the double \<^verbatim>\<open>0x3FE8F5C28F5C28F6\<close>, and the five products are
  the doubles that Python prints as 37.44, 56.160000000000004, 74.88, 112.32000000000001
  and 149.76.
\<close>

lemma double_078: "round_to_double (78 / 100) = 3512807709348987 / 2 ^ 52"
  by code_simp

lemma float_mul_tiers:
  "float_mul 48 (round_to_double (78 / 100)) = 658651445502935 / 2 ^ 44"
  "float_mul 72 (round_to_double (78 / 100)) = 7903817346035221 / 2 ^ 47"
  "float_mul 96 (round_to_double (78 / 100)) = 658651445502935 / 2 ^ 43"
  "float_mul 144 (round_to_double (78 / 100)) = 7903817346035221 / 2 ^ 46"
  "float_mul 192 (round_to_double (78 / 100)) = 658651445502935 / 2 ^ 42"
  by code_simp+

lemma inner_size_of_48: "inner_size_of 48 = 37" by code_simp
lemma inner_size_of_72: "inner_size_of 72 = 56" by code_simp
lemma inner_size_of_96: "inner_size_of 96 = 74" by code_simp
lemma inner_size_of_144: "inner_size_of 144 = 112" by code_simp
lemma inner_size_of_192: "inner_size_of 192 = 149" by code_simp

lemmas inner_size_of_tiers =
  inner_size_of_48 inner_size_of_72 inner_size_of_96 inner_size_of_144 inner_size_of_192

lemma MIPMAP_SIZES_cases:
  "(folder, sz) \<in> set MIPMAP_SIZES \<Longrightarrow> sz = 48 \<or> sz = 72 \<or> sz = 96 \<or> sz = 144 \<or> sz = 192"
  by (auto simp: MIPMAP_SIZES_def)

lemma inner_size_of_floor:
  "(folder, sz) \<in> set MIPMAP_SIZES \<Longrightarrow> inner_size_of sz = (78 * sz) div 100"
  by (auto dest!: MIPMAP_SIZES_cases simp: inner_size_of_tiers)

subsection \<open>Blending\<close>

lemma div255_255: "a < 256 \<Longrightarrow> div255 (a * 255) = a"
  by (simp add: div255_def Let_def)

lemma unat_byte: "unat (a :: 8 word) < 256"
  using unsigned_less [of a, where ?'a = nat] by simp

lemma blend8_0: "blend8 0 a b = a"
  by (simp add: blend8_def div255_255 [OF unat_byte])

lemma blend8_255: "blend8 255 a b = b"
  by (simp add: blend8_def div255_255 [OF unat_byte])

lemma blend_0: "blend 0 out inp = out"
  by (simp add: blend_def blend8_0 split: prod.splits)

lemma blend_255: "blend 255 out inp = inp"
  by (simp add: blend_def blend8_255 split: prod.splits)

subsection \<open>Pixels of the composed images\<close>

lemma store_icon_mode_size:
  "im_mode (store_icon env icon_fg) = RGB" "im_size (store_icon env icon_fg) = (512, 512)"
  by (simp_all add: store_icon_def paste_def Image_new_def Let_def)

lemma store_icon_pixel:
  "getpixel (store_icon env icon_fg) (x, y) =
     (if 46 \<le> x \<and> x < 46 + 420 \<and> 46 \<le> y \<and> y < 46 + 420
      then blend (mask_value (resize env icon_fg (420, 420)) (x - 46, y - 46)) (255, 255, 255, 255)
             (getpixel (resize env icon_fg (420, 420)) (x - 46, y - 46))
      else (255, 255, 255, 255))"
  by (simp add: store_icon_def paste_def Image_new_def resize_def rgb_def Let_def)

lemma launcher_square_mode_size:
  "im_mode (launcher_square fg sz offset) = RGB" "im_size (launcher_square fg sz offset) = (sz, sz)"
  by (simp_all add: launcher_square_def paste_def Image_new_def Let_def)

lemma launcher_square_pixel:
  "im_size fg = (inner, inner) \<Longrightarrow>
   getpixel (launcher_square fg sz offset) (x, y) =
     (if offset \<le> x \<and> x < offset + inner \<and> offset \<le> y \<and> y < offset + inner
      then blend (mask_value fg (x - offset, y - offset)) (255, 255, 255, 255)
             (getpixel fg (x - offset, y - offset))
      else (255, 255, 255, 255))"
  by (simp add: launcher_square_def paste_def Image_new_def rgb_def Let_def)

lemma launcher_round_mode_size:
  "im_mode (launcher_round env fg sz offset) = RGBA"
  "im_size (launcher_round env fg sz offset) = (sz, sz)"
  by (simp_all add: launcher_round_def paste_def Image_new_def Let_def)

lemma launcher_round_pixel:
  "im_size fg = (inner, inner) \<Longrightarrow> 0 \<le> x \<Longrightarrow> x < sz \<Longrightarrow> 0 \<le> y \<Longrightarrow> y < sz \<Longrightarrow>
   getpixel (launcher_round env fg sz offset) (x, y) =
     (if ellipse_covers env (0, 0, sz, sz) (x, y)
      then (if offset \<le> x \<and> x < offset + inner \<and> offset \<le> y \<and> y < offset + inner
            then blend (mask_value fg (x - offset, y - offset)) (255, 255, 255, 255)
                   (getpixel fg (x - offset, y - offset))
            else (255, 255, 255, 255))
      else (0, 0, 0, 0))"
  by (simp add: launcher_round_def paste_def Image_new_def draw_ellipse_def mask_value_def
      gray_def blend_0 blend_255 Let_def)


subsection \<open>The steps on the files\<close>

lemmas dirs = SVG_DIR_def IMG_DIR_def ANDROID_RES_def STORE_DIR_def

lemma svg2png_Inr:
  assumes "svg2png env f url write_to w h = Inr f'"
  obtains source raster where "f url = Some (Svg source)" and "cairo env source w h = Some raster"
    and "f' = f(write_to \<mapsto> Png \<lparr>im_mode = RGBA, im_size = (w, h), getpixel = raster\<rparr>)"
  using assms by (auto simp: svg2png_def split: option.splits file_content.splits)

lemma mipmap_tier_Inr:
  assumes "mipmap_tier env B (folder, sz) f = Inr f'"
  obtains source raster where "f (SVG_DIR B @ [''pakuni-icon.svg'']) = Some (Svg source)"
    and "cairo env source (inner_size_of sz) (inner_size_of sz) = Some raster"
    and "f' = f(IMG_DIR B @ [''_temp_mipmap.png''] \<mapsto>
               Png \<lparr>im_mode = RGBA, im_size = (inner_size_of sz, inner_size_of sz), getpixel = raster\<rparr>,
             ANDROID_RES B @ [folder, ''ic_launcher.png''] \<mapsto>
               Png (launcher_square
                 \<lparr>im_mode = RGBA, im_size = (inner_size_of sz, inner_size_of sz), getpixel = raster\<rparr>
                 sz ((sz - inner_size_of sz) div 2)),
             ANDROID_RES B @ [folder, ''ic_launcher_round.png''] \<mapsto>
               Png (launcher_round env
                 \<lparr>im_mode = RGBA, im_size = (inner_size_of sz, inner_size_of sz), getpixel = raster\<rparr>
                 sz ((sz - inner_size_of sz) div 2)))"
proof -
  from assms obtain f1 where
    s: "svg2png env f (SVG_DIR B @ [''pakuni-icon.svg'']) (IMG_DIR B @ [''_temp_mipmap.png''])
          (inner_size_of sz) (inner_size_of sz) = Inr f1"
    by (auto simp: mipmap_tier_def Let_def split: sum.splits)
  from s obtain source raster where
    1: "f (SVG_DIR B @ [''pakuni-icon.svg'']) = Some (Svg source)"
    and 2: "cairo env source (inner_size_of sz) (inner_size_of sz) = Some raster"
    and 3: "f1 = f(IMG_DIR B @ [''_temp_mipmap.png''] \<mapsto>
        Png \<lparr>im_mode = RGBA, im_size = (inner_size_of sz, inner_size_of sz), getpixel = raster\<rparr>)"
    by (rule svg2png_Inr)
  from assms s 3 have "f' = f(IMG_DIR B @ [''_temp_mipmap.png''] \<mapsto>
               Png \<lparr>im_mode = RGBA, im_size = (inner_size_of sz, inner_size_of sz), getpixel = raster\<rparr>,
             ANDROID_RES B @ [folder, ''ic_launcher.png''] \<mapsto>
               Png (launcher_square
                 \<lparr>im_mode = RGBA, im_size = (inner_size_of sz, inner_size_of sz), getpixel = raster\<rparr>
                 sz ((sz - inner_size_of sz) div 2)),
             ANDROID_RES B @ [folder, ''ic_launcher_round.png''] \<mapsto>
               Png (launcher_round env
                 \<lparr>im_mode = RGBA, im_size = (inner_size_of sz, inner_size_of sz), getpixel = raster\<rparr>
                 sz ((sz - inner_size_of sz) div 2)))"
    by (simp add: mipmap_tier_def Let_def Image_open_def convert_RGBA_def save_def)
  with 1 2 show ?thesis by (rule that)
qed

lemma mipmap_loop_frame:
  "mipmap_loop env B tiers f = Inr f' \<Longrightarrow> p \<noteq> IMG_DIR B @ [''_temp_mipmap.png''] \<Longrightarrow>
   \<forall>(folder, sz)\<in>set tiers. p \<noteq> ANDROID_RES B @ [folder, ''ic_launcher.png''] \<and>
      p \<noteq> ANDROID_RES B @ [folder, ''ic_launcher_round.png''] \<Longrightarrow>
   f' p = f p"
proof (induction tiers arbitrary: f)
  case Nil
  then show ?case by simp
next
  case (Cons tier tiers)
  obtain folder sz where tier: "tier = (folder, sz)" by (cases tier)
  from Cons.prems(1) obtain f1 where t: "mipmap_tier env B (folder, sz) f = Inr f1"
    and l: "mipmap_loop env B tiers f1 = Inr f'"
    by (auto simp: tier split: sum.splits)
  from Cons.prems(3) have rest: "\<forall>(folder, sz)\<in>set tiers.
      p \<noteq> ANDROID_RES B @ [folder, ''ic_launcher.png''] \<and>
      p \<noteq> ANDROID_RES B @ [folder, ''ic_launcher_round.png'']"
    by simp
  from Cons.IH [OF l Cons.prems(2) rest] have "f' p = f1 p" .
  also from t Cons.prems(2,3) have "f1 p = f p"
    by (elim mipmap_tier_Inr) (simp add: tier)
  finally show ?case .
qed

lemma tier_paths_neq:
  "ANDROID_RES B @ [folder, a] \<noteq> IMG_DIR B @ [b]"
  "ANDROID_RES B @ [folder, a] \<noteq> SVG_DIR B @ [b]"
  "ANDROID_RES B @ [folder, a] \<noteq> STORE_DIR B @ [b]"
  "IMG_DIR B @ [a] \<noteq> SVG_DIR B @ [b]"
  "STORE_DIR B @ [a] \<noteq> SVG_DIR B @ [b]"
  "STORE_DIR B @ [a] \<noteq> IMG_DIR B @ [b]"
  by (simp_all add: dirs)

lemma mipmap_loop_tier:
  assumes "mipmap_loop env B tiers f = Inr f'" and "distinct (map fst tiers)"
    and "(folder, sz) \<in> set tiers" and "f (SVG_DIR B @ [''pakuni-icon.svg'']) = Some (Svg source)"
  shows "\<exists>raster. cairo env source (inner_size_of sz) (inner_size_of sz) = Some raster \<and>
     f' (ANDROID_RES B @ [folder, ''ic_launcher.png'']) =
       Some (Png (launcher_square
         \<lparr>im_mode = RGBA, im_size = (inner_size_of sz, inner_size_of sz), getpixel = raster\<rparr>
         sz ((sz - inner_size_of sz) div 2))) \<and>
     f' (ANDROID_RES B @ [folder, ''ic_launcher_round.png'']) =
       Some (Png (launcher_round env
         \<lparr>im_mode = RGBA, im_size = (inner_size_of sz, inner_size_of sz), getpixel = raster\<rparr>
         sz ((sz - inner_size_of sz) div 2)))"
  using assms
proof (induction tiers arbitrary: f)
  case Nil
  then show ?case by simp
next
  case (Cons tier tiers)
  obtain folder1 sz1 where tier: "tier = (folder1, sz1)" by (cases tier)
  from Cons.prems(1) obtain f1 where t: "mipmap_tier env B (folder1, sz1) f = Inr f1"
    and l: "mipmap_loop env B tiers f1 = Inr f'"
    by (auto simp: tier split: sum.splits)
  from t obtain source1 raster1 where
    1: "f (SVG_DIR B @ [''pakuni-icon.svg'']) = Some (Svg source1)"
    and 2: "cairo env source1 (inner_size_of sz1) (inner_size_of sz1) = Some raster1"
    and 3: "f1 = f(IMG_DIR B @ [''_temp_mipmap.png''] \<mapsto>
               Png \<lparr>im_mode = RGBA, im_size = (inner_size_of sz1, inner_size_of sz1), getpixel = raster1\<rparr>,
             ANDROID_RES B @ [folder1, ''ic_launcher.png''] \<mapsto>
               Png (launcher_square
                 \<lparr>im_mode = RGBA, im_size = (inner_size_of sz1, inner_size_of sz1), getpixel = raster1\<rparr>
                 sz1 ((sz1 - inner_size_of sz1) div 2)),
             ANDROID_RES B @ [folder1, ''ic_launcher_round.png''] \<mapsto>
               Png (launcher_round env
                 \<lparr>im_mode = RGBA, im_size = (inner_size_of sz1, inner_size_of sz1), getpixel = raster1\<rparr>
                 sz1 ((sz1 - inner_size_of sz1) div 2)))"
    by (rule mipmap_tier_Inr)
  from 1 Cons.prems(4) have src: "source1 = source" by simp
  have f1_src: "f1 (SVG_DIR B @ [''pakuni-icon.svg'']) = Some (Svg source)"
    unfolding 3 using Cons.prems(4) by (simp add: dirs)
  show ?case
  proof (cases "(folder, sz) = (folder1, sz1)")
    case True
    from Cons.prems(2) have notin: "folder1 \<notin> fst ` set tiers" by (simp add: tier)
    have frame: "f' (ANDROID_RES B @ [folder1, a]) = f1 (ANDROID_RES B @ [folder1, a])" for a
    proof (rule mipmap_loop_frame [OF l])
      show "ANDROID_RES B @ [folder1, a] \<noteq> IMG_DIR B @ [''_temp_mipmap.png'']"
        by (rule tier_paths_neq)
      show "\<forall>(folder, sz)\<in>set tiers.
          ANDROID_RES B @ [folder1, a] \<noteq> ANDROID_RES B @ [folder, ''ic_launcher.png''] \<and>
          ANDROID_RES B @ [folder1, a] \<noteq> ANDROID_RES B @ [folder, ''ic_launcher_round.png'']"
        using notin by (force simp: dirs)
    qed
    from True 2 src frame show ?thesis
      unfolding 3 by (auto simp: dirs)
  next
    case False
    with Cons.prems(3) have "(folder, sz) \<in> set tiers" by (auto simp: tier)
    moreover from Cons.prems(2) have "distinct (map fst tiers)" by simp
    ultimately show ?thesis using Cons.IH [OF l _ _ f1_src] by blast
  qed
qed


lemma cleanup_frame:
  "p \<noteq> IMG_DIR B @ [''_temp_icon.png''] \<Longrightarrow> p \<noteq> IMG_DIR B @ [''_temp_mipmap.png''] \<Longrightarrow>
   cleanup B f p = f p"
  by (simp add: cleanup_def)

lemma MIPMAP_SIZES_distinct: "distinct (map fst MIPMAP_SIZES)"
  by (simp add: MIPMAP_SIZES_def)

lemma generate_icons_Inr:
  assumes "generate_icons env B f = Inr f'"
  obtains source raster f4 f5 where
    "f (SVG_DIR B @ [''pakuni-icon.svg'']) = Some (Svg source)"
    and "cairo env source 400 400 = Some raster"
    and "f4 (SVG_DIR B @ [''pakuni-icon.svg'']) = Some (Svg source)"
    and "f4 (IMG_DIR B @ [''pakuni-icon-round.png'']) =
      Some (Png (round_icon env \<lparr>im_mode = RGBA, im_size = (400, 400), getpixel = raster\<rparr>))"
    and "f4 (STORE_DIR B @ [''icon-512.png'']) =
      Some (Png (store_icon env \<lparr>im_mode = RGBA, im_size = (400, 400), getpixel = raster\<rparr>))"
    and "\<forall>folder p. f4 (ANDROID_RES B @ folder # p) = f (ANDROID_RES B @ folder # p)"
    and "mipmap_loop env B MIPMAP_SIZES f4 = Inr f5" and "f' = cleanup B f5"
proof -
  from assms obtain f1 where
    s1: "svg2png env f (SVG_DIR B @ [''pakuni-logo.svg'']) (IMG_DIR B @ [''pakuni-logo.png''])
           400 520 = Inr f1"
    by (auto simp: generate_icons_def split: sum.splits)
  with assms obtain f2 where
    s2: "svg2png env f1 (SVG_DIR B @ [''pakuni-icon.svg'']) (IMG_DIR B @ [''pakuni-icon.png''])
           512 512 = Inr f2"
    by (auto simp: generate_icons_def split: sum.splits)
  with assms s1 obtain f3 where
    s3: "svg2png env f2 (SVG_DIR B @ [''pakuni-icon.svg'']) (IMG_DIR B @ [''_temp_icon.png''])
           400 400 = Inr f3"
    by (auto simp: generate_icons_def split: sum.splits)
  from s1 obtain r1 where
    f1: "f1 = f(IMG_DIR B @ [''pakuni-logo.png''] \<mapsto>
      Png \<lparr>im_mode = RGBA, im_size = (400, 520), getpixel = r1\<rparr>)"
    by (rule svg2png_Inr)
  from s2 obtain source2 r2 where
    f2: "f2 = f1(IMG_DIR B @ [''pakuni-icon.png''] \<mapsto>
      Png \<lparr>im_mode = RGBA, im_size = (512, 512), getpixel = r2\<rparr>)"
    by (rule svg2png_Inr)
  from s3 obtain source raster where
    src3: "f2 (SVG_DIR B @ [''pakuni-icon.svg'']) = Some (Svg source)"
    and c3: "cairo env source 400 400 = Some raster"
    and f3: "f3 = f2(IMG_DIR B @ [''_temp_icon.png''] \<mapsto>
      Png \<lparr>im_mode = RGBA, im_size = (400, 400), getpixel = raster\<rparr>)"
    by (rule svg2png_Inr)
  let ?icon_fg = "\<lparr>im_mode = RGBA, im_size = (400, 400), getpixel = raster\<rparr>"
  let ?f4 = "f3(IMG_DIR B @ [''pakuni-icon-round.png''] \<mapsto> Png (round_icon env ?icon_fg),
                STORE_DIR B @ [''icon-512.png''] \<mapsto> Png (store_icon env ?icon_fg))"
  from src3 have src: "f (SVG_DIR B @ [''pakuni-icon.svg'']) = Some (Svg source)"
    unfolding f2 f1 by (simp add: dirs)
  then have src4: "?f4 (SVG_DIR B @ [''pakuni-icon.svg'']) = Some (Svg source)"
    unfolding f3 f2 f1 by (simp add: dirs)
  have r4: "?f4 (IMG_DIR B @ [''pakuni-icon-round.png'']) = Some (Png (round_icon env ?icon_fg))"
    by (simp add: dirs)
  have st4: "?f4 (STORE_DIR B @ [''icon-512.png'']) = Some (Png (store_icon env ?icon_fg))"
    by simp
  have fr4: "\<forall>folder p. ?f4 (ANDROID_RES B @ folder # p) = f (ANDROID_RES B @ folder # p)"
    unfolding f3 f2 f1 by (simp add: dirs)
  from assms s1 s2 s3 obtain f5 where
    l: "mipmap_loop env B MIPMAP_SIZES ?f4 = Inr f5" and c: "f' = cleanup B f5"
    unfolding f3
    by (auto simp: generate_icons_def Image_open_def convert_RGBA_def save_def Let_def
        split: sum.splits)
  from src c3 src4 r4 st4 fr4 l c show ?thesis by (rule that)
qed

lemma mipmap_loop_succeeds:
  assumes "f (SVG_DIR B @ [''pakuni-icon.svg'']) = Some (Svg source)"
    and "\<forall>(folder, sz)\<in>set tiers. cairo env source (inner_size_of sz) (inner_size_of sz) \<noteq> None"
  shows "\<exists>f'. mipmap_loop env B tiers f = Inr f'"
  using assms
proof (induction tiers arbitrary: f)
  case Nil
  then show ?case by simp
next
  case (Cons tier tiers)
  obtain folder sz where tier: "tier = (folder, sz)" by (cases tier)
  from Cons.prems(2) obtain raster where
    r: "cairo env source (inner_size_of sz) (inner_size_of sz) = Some raster"
    by (auto simp: tier)
  with Cons.prems(1) obtain f1 where t: "mipmap_tier env B (folder, sz) f = Inr f1"
    by (simp add: mipmap_tier_def svg2png_def Image_open_def Let_def)
  then have "f1 (SVG_DIR B @ [''pakuni-icon.svg'']) = Some (Svg source)"
    using Cons.prems(1) by (elim mipmap_tier_Inr) (simp add: dirs)
  moreover from Cons.prems(2) have "\<forall>(folder, sz)\<in>set tiers.
      cairo env source (inner_size_of sz) (inner_size_of sz) \<noteq> None"
    by simp
  ultimately obtain f' where "mipmap_loop env B tiers f1 = Inr f'"
    using Cons.IH by blast
  with t show ?case by (simp add: tier)
qed

lemma generate_icons_succeeds:
  assumes "f (SVG_DIR B @ [''pakuni-logo.svg'']) = Some (Svg logo)"
    and "f (SVG_DIR B @ [''pakuni-icon.svg'']) = Some (Svg source)"
    and "cairo env logo 400 520 \<noteq> None" and "\<forall>w h. cairo env source w h \<noteq> None"
  shows "\<exists>f'. generate_icons env B f = Inr f'"
proof -
  from assms(3) obtain r1 where r1: "cairo env logo 400 520 = Some r1" by auto
  from assms(4) obtain r2 where r2: "cairo env source 512 512 = Some r2" by auto
  from assms(4) obtain r3 where r3: "cairo env source 400 400 = Some r3" by auto
  let ?icon_fg = "\<lparr>im_mode = RGBA, im_size = (400, 400), getpixel = r3\<rparr>"
  let ?f4 = "f(IMG_DIR B @ [''pakuni-logo.png''] \<mapsto>
        Png \<lparr>im_mode = RGBA, im_size = (400, 520), getpixel = r1\<rparr>,
      IMG_DIR B @ [''pakuni-icon.png''] \<mapsto>
        Png \<lparr>im_mode = RGBA, im_size = (512, 512), getpixel = r2\<rparr>,
      IMG_DIR B @ [''_temp_icon.png''] \<mapsto> Png ?icon_fg,
      IMG_DIR B @ [''pakuni-icon-round.png''] \<mapsto> Png (round_icon env ?icon_fg),
      STORE_DIR B @ [''icon-512.png''] \<mapsto> Png (store_icon env ?icon_fg))"
  have "?f4 (SVG_DIR B @ [''pakuni-icon.svg'']) = Some (Svg source)"
    using assms(2) by (simp add: dirs)
  moreover have "\<forall>(folder, sz)\<in>set MIPMAP_SIZES.
      cairo env source (inner_size_of sz) (inner_size_of sz) \<noteq> None"
    using assms(4) by simp
  ultimately obtain f5 where "mipmap_loop env B MIPMAP_SIZES ?f4 = Inr f5"
    using mipmap_loop_succeeds by blast
  with assms(1,2) r1 r2 r3 have "generate_icons env B f = Inr (cleanup B f5)"
    by (simp add: generate_icons_def svg2png_def Image_open_def convert_RGBA_def save_def
        Let_def dirs)
  then show ?thesis by blast
qed

lemma example_run: "\<exists>files'. generate_icons example_env [] example_files = Inr files'"
  by (rule generate_icons_succeeds [where logo = "''<svg/>''" and source = "''<svg/>''"])
    (simp_all add: example_files_def example_env_def dirs)

subsection \<open>Claims about the icon generator\<close>

text \<open>
  The render is 400 pixels wide and the image pasted into the store icon is 420 pixels
  wide, so the resize enlarges: with a filter that gives black pixels, the store icon is
  black from pixel 46 to pixel 465 of the diagonal and white at pixels 45 and 466.
\<close>

theorem C6_counterexample:
  "im_size \<lparr>im_mode = RGBA, im_size = (400, 400), getpixel = (\<lambda>p. (0, 0, 0, 255))\<rparr> = (400, 400) \<and>
   im_size (resize example_env
     \<lparr>im_mode = RGBA, im_size = (400, 400), getpixel = (\<lambda>p. (0, 0, 0, 255))\<rparr> (420, 420)) =
     (420, 420) \<and>
   \<not> fst (im_size (resize example_env
     \<lparr>im_mode = RGBA, im_size = (400, 400), getpixel = (\<lambda>p. (0, 0, 0, 255))\<rparr> (420, 420))) <
     fst (im_size \<lparr>im_mode = RGBA, im_size = (400, 400), getpixel = (\<lambda>p. (0, 0, 0, 255))\<rparr>) \<and>
   getpixel (store_icon example_env
     \<lparr>im_mode = RGBA, im_size = (400, 400), getpixel = (\<lambda>p. (0, 0, 0, 255))\<rparr>) (45, 45) =
     (255, 255, 255, 255) \<and>
   getpixel (store_icon example_env
     \<lparr>im_mode = RGBA, im_size = (400, 400), getpixel = (\<lambda>p. (0, 0, 0, 255))\<rparr>) (46, 46) =
     (0, 0, 0, 255) \<and>
   getpixel (store_icon example_env
     \<lparr>im_mode = RGBA, im_size = (400, 400), getpixel = (\<lambda>p. (0, 0, 0, 255))\<rparr>) (465, 465) =
     (0, 0, 0, 255) \<and>
   getpixel (store_icon example_env
     \<lparr>im_mode = RGBA, im_size = (400, 400), getpixel = (\<lambda>p. (0, 0, 0, 255))\<rparr>) (466, 466) =
     (255, 255, 255, 255)"
  by (simp add: store_icon_pixel resize_def example_env_def mask_value_def blend_255)

text \<open>
  C6 (amended). The store icon is made from the same 400 by 400 render of the icon vector
  as the round icon: the render is resized to 420 by 420, which is larger than the render
  and smaller than the square, and pasted through its own alpha channel onto a white 512
  by 512 image of mode \<open>RGB\<close> (no alpha channel) at offset 46, which leaves 46 pixels on
  every side; the result is saved as \<^verbatim>\<open>store-listing/icon-512.png\<close>.
\<close>

theorem C6_store_icon_resized_to_420:
  assumes "generate_icons env BASE_DIR files = Inr files'"
  shows "\<exists>source raster.
      files (SVG_DIR BASE_DIR @ [''pakuni-icon.svg'']) = Some (Svg source) \<and>
      cairo env source 400 400 = Some raster \<and>
      (let icon_fg = \<lparr>im_mode = RGBA, im_size = (400, 400), getpixel = raster\<rparr>;
           icon_for_store = resize env icon_fg (420, 420)
       in files' (IMG_DIR BASE_DIR @ [''pakuni-icon-round.png'']) =
            Some (Png (round_icon env icon_fg)) \<and>
          files' (STORE_DIR BASE_DIR @ [''icon-512.png'']) = Some (Png (store_icon env icon_fg)) \<and>
          im_size icon_for_store = (420, 420) \<and>
          im_mode (store_icon env icon_fg) = RGB \<and>
          im_size (store_icon env icon_fg) = (512, 512) \<and>
          512 - (46 + 420) = (46 :: int) \<and>
          (\<forall>x y. getpixel (store_icon env icon_fg) (x, y) =
             (if 46 \<le> x \<and> x < 46 + 420 \<and> 46 \<le> y \<and> y < 46 + 420
              then blend (mask_value icon_for_store (x - 46, y - 46)) (255, 255, 255, 255)
                     (getpixel icon_for_store (x - 46, y - 46))
              else (255, 255, 255, 255))))"
proof -
  from assms obtain source raster f4 f5 where
    src: "files (SVG_DIR BASE_DIR @ [''pakuni-icon.svg'']) = Some (Svg source)"
    and c: "cairo env source 400 400 = Some raster"
    and r4: "f4 (IMG_DIR BASE_DIR @ [''pakuni-icon-round.png'']) =
      Some (Png (round_icon env \<lparr>im_mode = RGBA, im_size = (400, 400), getpixel = raster\<rparr>))"
    and st4: "f4 (STORE_DIR BASE_DIR @ [''icon-512.png'']) =
      Some (Png (store_icon env \<lparr>im_mode = RGBA, im_size = (400, 400), getpixel = raster\<rparr>))"
    and l: "mipmap_loop env BASE_DIR MIPMAP_SIZES f4 = Inr f5" and cl: "files' = cleanup BASE_DIR f5"
    by (rule generate_icons_Inr)
  have "files' (IMG_DIR BASE_DIR @ [''pakuni-icon-round.png'']) =
      f5 (IMG_DIR BASE_DIR @ [''pakuni-icon-round.png''])"
    unfolding cl by (rule cleanup_frame) (simp_all add: dirs)
  also have "\<dots> = f4 (IMG_DIR BASE_DIR @ [''pakuni-icon-round.png''])"
    by (rule mipmap_loop_frame [OF l]) (auto simp: dirs)
  finally have 1: "files' (IMG_DIR BASE_DIR @ [''pakuni-icon-round.png'']) =
      Some (Png (round_icon env \<lparr>im_mode = RGBA, im_size = (400, 400), getpixel = raster\<rparr>))"
    using r4 by simp
  have "files' (STORE_DIR BASE_DIR @ [''icon-512.png'']) = f5 (STORE_DIR BASE_DIR @ [''icon-512.png''])"
    unfolding cl by (rule cleanup_frame) (simp_all add: dirs)
  also have "\<dots> = f4 (STORE_DIR BASE_DIR @ [''icon-512.png''])"
    by (rule mipmap_loop_frame [OF l]) (auto simp: dirs)
  finally have 2: "files' (STORE_DIR BASE_DIR @ [''icon-512.png'']) =
      Some (Png (store_icon env \<lparr>im_mode = RGBA, im_size = (400, 400), getpixel = raster\<rparr>))"
    using st4 by simp
  have 3: "im_size (resize env \<lparr>im_mode = RGBA, im_size = (400, 400), getpixel = raster\<rparr>
      (420, 420)) = (420, 420)"
    by (simp add: resize_def)
  from src c 1 2 3 show ?thesis
    unfolding Let_def
    by (intro exI [of _ source] exI [of _ raster] conjI allI store_icon_mode_size store_icon_pixel)
      simp_all
qed


theorem C6_witness:
  "\<exists>files'. generate_icons example_env [] example_files = Inr files' \<and>
     files' (STORE_DIR [] @ [''icon-512.png'']) =
       Some (Png (store_icon example_env
         \<lparr>im_mode = RGBA, im_size = (400, 400), getpixel = (\<lambda>p. (0, 0, 0, 255))\<rparr>)) \<and>
     files' (IMG_DIR [] @ [''pakuni-icon-round.png'']) =
       Some (Png (round_icon example_env
         \<lparr>im_mode = RGBA, im_size = (400, 400), getpixel = (\<lambda>p. (0, 0, 0, 255))\<rparr>))"
proof -
  from example_run obtain files' where
    run: "generate_icons example_env [] example_files = Inr files'" ..
  from C6_store_icon_resized_to_420 [OF run] obtain source raster where
    c: "cairo example_env source 400 400 = Some raster"
    and f: "files' (IMG_DIR [] @ [''pakuni-icon-round.png'']) =
       Some (Png (round_icon example_env
         \<lparr>im_mode = RGBA, im_size = (400, 400), getpixel = raster\<rparr>))"
      "files' (STORE_DIR [] @ [''icon-512.png'']) =
       Some (Png (store_icon example_env
         \<lparr>im_mode = RGBA, im_size = (400, 400), getpixel = raster\<rparr>))"
    unfolding Let_def by blast
  from c have "raster = (\<lambda>p. (0, 0, 0, 255))" by (simp add: example_env_def)
  with run f show ?thesis by blast
qed

text \<open>
  C7. The tiers have the sizes 48, 72, 96, 144 and 192. For each tier the run renders the
  icon vector at the inner size, which is the floor of 0.78 times the tier size, and writes
  the square icon and the round icon, both of the tier size, into the directory of the
  tier, and changes no other file of that directory. The render is pasted at offset (tier
  size - inner size) div 2 in the square icon, and the round icon has the pixels of the
  square icon wherever the ellipse covers.
\<close>

theorem C7_density_tier_files:
  assumes "generate_icons env BASE_DIR files = Inr files'" and "(folder, sz) \<in> set MIPMAP_SIZES"
  shows "map snd MIPMAP_SIZES = [48, 72, 96, 144, 192] \<and>
     inner_size_of sz = (78 * sz) div 100 \<and>
     (\<exists>source raster.
        files (SVG_DIR BASE_DIR @ [''pakuni-icon.svg'']) = Some (Svg source) \<and>
        cairo env source (inner_size_of sz) (inner_size_of sz) = Some raster \<and>
        (let fg = \<lparr>im_mode = RGBA, im_size = (inner_size_of sz, inner_size_of sz),
                    getpixel = raster\<rparr>;
             offset = (sz - inner_size_of sz) div 2;
             square = launcher_square fg sz offset;
             round = launcher_round env fg sz offset
         in files' (ANDROID_RES BASE_DIR @ [folder, ''ic_launcher.png'']) = Some (Png square) \<and>
            files' (ANDROID_RES BASE_DIR @ [folder, ''ic_launcher_round.png'']) = Some (Png round) \<and>
            im_size square = (sz, sz) \<and> im_size round = (sz, sz) \<and>
            (\<forall>x y. getpixel square (x, y) =
               (if offset \<le> x \<and> x < offset + inner_size_of sz \<and>
                   offset \<le> y \<and> y < offset + inner_size_of sz
                then blend (mask_value fg (x - offset, y - offset)) (255, 255, 255, 255)
                       (getpixel fg (x - offset, y - offset))
                else (255, 255, 255, 255))) \<and>
            (\<forall>x y. 0 \<le> x \<and> x < sz \<and> 0 \<le> y \<and> y < sz \<and>
                 ellipse_covers env (0, 0, sz, sz) (x, y) \<longrightarrow>
               getpixel round (x, y) = getpixel square (x, y)))) \<and>
     (\<forall>p. files' (ANDROID_RES BASE_DIR @ folder # p) \<noteq> files (ANDROID_RES BASE_DIR @ folder # p) \<longrightarrow>
        p = [''ic_launcher.png''] \<or> p = [''ic_launcher_round.png''])"
proof (intro conjI)
  show "map snd MIPMAP_SIZES = [48, 72, 96, 144, 192]"
    by (simp add: MIPMAP_SIZES_def)
  show "inner_size_of sz = (78 * sz) div 100"
    using assms(2) by (rule inner_size_of_floor)
  from assms(1) obtain source f4 f5 where
    src: "files (SVG_DIR BASE_DIR @ [''pakuni-icon.svg'']) = Some (Svg source)"
    and src4: "f4 (SVG_DIR BASE_DIR @ [''pakuni-icon.svg'']) = Some (Svg source)"
    and fr4: "\<forall>folder p. f4 (ANDROID_RES BASE_DIR @ folder # p) =
        files (ANDROID_RES BASE_DIR @ folder # p)"
    and l: "mipmap_loop env BASE_DIR MIPMAP_SIZES f4 = Inr f5" and cl: "files' = cleanup BASE_DIR f5"
    by (rule generate_icons_Inr) blast
  have frame: "files' (ANDROID_RES BASE_DIR @ folder # p) = f5 (ANDROID_RES BASE_DIR @ folder # p)"
    for p
    unfolding cl by (rule cleanup_frame) (simp_all add: dirs)
  let ?inner = "inner_size_of sz"
  let ?offset = "(sz - ?inner) div 2"
  from mipmap_loop_tier [OF l MIPMAP_SIZES_distinct assms(2) src4] obtain raster where
    c: "cairo env source ?inner ?inner = Some raster"
    and sq: "f5 (ANDROID_RES BASE_DIR @ [folder, ''ic_launcher.png'']) =
       Some (Png (launcher_square
         \<lparr>im_mode = RGBA, im_size = (?inner, ?inner), getpixel = raster\<rparr> sz ?offset))"
    and rd: "f5 (ANDROID_RES BASE_DIR @ [folder, ''ic_launcher_round.png'']) =
       Some (Png (launcher_round env
         \<lparr>im_mode = RGBA, im_size = (?inner, ?inner), getpixel = raster\<rparr> sz ?offset))"
    by blast
  let ?fg = "\<lparr>im_mode = RGBA, im_size = (?inner, ?inner), getpixel = raster\<rparr>"
  have size_fg: "im_size ?fg = (?inner, ?inner)" by simp
  have same: "getpixel (launcher_round env ?fg sz ?offset) (x, y) =
      getpixel (launcher_square ?fg sz ?offset) (x, y)"
    if "0 \<le> x \<and> x < sz \<and> 0 \<le> y \<and> y < sz \<and> ellipse_covers env (0, 0, sz, sz) (x, y)" for x y
    using that
    by (simp add: launcher_round_pixel [OF size_fg] launcher_square_pixel [OF size_fg])
  from src c sq rd frame [of "[''ic_launcher.png'']"] frame [of "[''ic_launcher_round.png'']"] same
  show "\<exists>source raster.
        files (SVG_DIR BASE_DIR @ [''pakuni-icon.svg'']) = Some (Svg source) \<and>
        cairo env source (inner_size_of sz) (inner_size_of sz) = Some raster \<and>
        (let fg = \<lparr>im_mode = RGBA, im_size = (inner_size_of sz, inner_size_of sz),
                    getpixel = raster\<rparr>;
             offset = (sz - inner_size_of sz) div 2;
             square = launcher_square fg sz offset;
             round = launcher_round env fg sz offset
         in files' (ANDROID_RES BASE_DIR @ [folder, ''ic_launcher.png'']) = Some (Png square) \<and>
            files' (ANDROID_RES BASE_DIR @ [folder, ''ic_launcher_round.png'']) = Some (Png round) \<and>
            im_size square = (sz, sz) \<and> im_size round = (sz, sz) \<and>
            (\<forall>x y. getpixel square (x, y) =
               (if offset \<le> x \<and> x < offset + inner_size_of sz \<and>
                   offset \<le> y \<and> y < offset + inner_size_of sz
                then blend (mask_value fg (x - offset, y - offset)) (255, 255, 255, 255)
                       (getpixel fg (x - offset, y - offset))
                else (255, 255, 255, 255))) \<and>
            (\<forall>x y. 0 \<le> x \<and> x < sz \<and> 0 \<le> y \<and> y < sz \<and>
                 ellipse_covers env (0, 0, sz, sz) (x, y) \<longrightarrow>
               getpixel round (x, y) = getpixel square (x, y)))"
    unfolding Let_def
    by (intro exI [of _ source] exI [of _ raster] conjI allI impI
        launcher_square_mode_size launcher_round_mode_size launcher_square_pixel [OF size_fg])
      simp_all
  show "\<forall>p. files' (ANDROID_RES BASE_DIR @ folder # p) \<noteq> files (ANDROID_RES BASE_DIR @ folder # p) \<longrightarrow>
        p = [''ic_launcher.png''] \<or> p = [''ic_launcher_round.png'']"
  proof (intro allI impI, rule ccontr)
    fix p
    assume changed: "files' (ANDROID_RES BASE_DIR @ folder # p) \<noteq>
        files (ANDROID_RES BASE_DIR @ folder # p)"
    assume "\<not> (p = [''ic_launcher.png''] \<or> p = [''ic_launcher_round.png''])"
    then have other: "\<forall>(folder', sz')\<in>set MIPMAP_SIZES.
        ANDROID_RES BASE_DIR @ folder # p \<noteq> ANDROID_RES BASE_DIR @ [folder', ''ic_launcher.png''] \<and>
        ANDROID_RES BASE_DIR @ folder # p \<noteq> ANDROID_RES BASE_DIR @ [folder', ''ic_launcher_round.png'']"
      by (auto simp: dirs)
    have "ANDROID_RES BASE_DIR @ folder # p \<noteq> IMG_DIR BASE_DIR @ [''_temp_mipmap.png'']"
      by (simp add: dirs)
    from mipmap_loop_frame [OF l this other]
    have "f5 (ANDROID_RES BASE_DIR @ folder # p) = files (ANDROID_RES BASE_DIR @ folder # p)"
      by (simp add: fr4)
    with frame [of p] changed show False by simp
  qed
qed


theorem C7_witness:
  "(''mipmap-mdpi'', 48) \<in> set MIPMAP_SIZES \<and> inner_size_of 48 = 37 \<and>
   ellipse_covers example_env (0, 0, 48, 48) (24, 24) \<and>
   getpixel (launcher_round example_env
       \<lparr>im_mode = RGBA, im_size = (37, 37), getpixel = (\<lambda>p. (0, 0, 0, 255))\<rparr> 48 5) (24, 24) =
     getpixel (launcher_square
       \<lparr>im_mode = RGBA, im_size = (37, 37), getpixel = (\<lambda>p. (0, 0, 0, 255))\<rparr> 48 5) (24, 24) \<and>
   (\<exists>files'. generate_icons example_env [] example_files = Inr files' \<and>
      files' (ANDROID_RES [] @ [''mipmap-mdpi'', ''ic_launcher.png'']) =
        Some (Png (launcher_square
          \<lparr>im_mode = RGBA, im_size = (37, 37), getpixel = (\<lambda>p. (0, 0, 0, 255))\<rparr> 48 5)) \<and>
      files' (ANDROID_RES [] @ [''mipmap-mdpi'', ''ic_launcher_round.png'']) =
        Some (Png (launcher_round example_env
          \<lparr>im_mode = RGBA, im_size = (37, 37), getpixel = (\<lambda>p. (0, 0, 0, 255))\<rparr> 48 5)) \<and>
      files' (ANDROID_RES [] @ [''mipmap-mdpi'', ''ic_launcher_foreground.png'']) =
        example_files (ANDROID_RES [] @ [''mipmap-mdpi'', ''ic_launcher_foreground.png'']))"
proof -
  have tier: "(''mipmap-mdpi'', 48) \<in> set MIPMAP_SIZES" by (simp add: MIPMAP_SIZES_def)
  have cov: "ellipse_covers example_env (0, 0, 48, 48) (24, 24)" by (simp add: example_env_def)
  from example_run obtain files' where
    run: "generate_icons example_env [] example_files = Inr files'" ..
  note t = C7_density_tier_files [OF run tier]
  from t have i: "inner_size_of 48 = 37" by simp
  from t have fr: "\<forall>p. files' (ANDROID_RES [] @ ''mipmap-mdpi'' # p) \<noteq>
        example_files (ANDROID_RES [] @ ''mipmap-mdpi'' # p) \<longrightarrow>
      p = [''ic_launcher.png''] \<or> p = [''ic_launcher_round.png'']"
    by (rule conjunct2 [THEN conjunct2, THEN conjunct2])
  have o: "files' (ANDROID_RES [] @ [''mipmap-mdpi'', ''ic_launcher_foreground.png'']) =
      example_files (ANDROID_RES [] @ [''mipmap-mdpi'', ''ic_launcher_foreground.png''])"
    using fr [rule_format, of "[''ic_launcher_foreground.png'']"] by auto
  from t obtain source raster where
    c: "cairo example_env source (inner_size_of 48) (inner_size_of 48) = Some raster"
    and f: "files' (ANDROID_RES [] @ [''mipmap-mdpi'', ''ic_launcher.png'']) =
        Some (Png (launcher_square
          \<lparr>im_mode = RGBA, im_size = (inner_size_of 48, inner_size_of 48), getpixel = raster\<rparr>
          48 ((48 - inner_size_of 48) div 2)))"
      "files' (ANDROID_RES [] @ [''mipmap-mdpi'', ''ic_launcher_round.png'']) =
        Some (Png (launcher_round example_env
          \<lparr>im_mode = RGBA, im_size = (inner_size_of 48, inner_size_of 48), getpixel = raster\<rparr>
          48 ((48 - inner_size_of 48) div 2)))"
    and px: "\<forall>x y. 0 \<le> x \<and> x < 48 \<and> 0 \<le> y \<and> y < 48 \<and>
          ellipse_covers example_env (0, 0, 48, 48) (x, y) \<longrightarrow>
        getpixel (launcher_round example_env
          \<lparr>im_mode = RGBA, im_size = (inner_size_of 48, inner_size_of 48), getpixel = raster\<rparr>
          48 ((48 - inner_size_of 48) div 2)) (x, y) =
        getpixel (launcher_square
          \<lparr>im_mode = RGBA, im_size = (inner_size_of 48, inner_size_of 48), getpixel = raster\<rparr>
          48 ((48 - inner_size_of 48) div 2)) (x, y)"
    unfolding Let_def by blast
  from c have r: "raster = (\<lambda>p. (0, 0, 0, 255))" by (simp add: example_env_def)
  from f i r have files:
    "files' (ANDROID_RES [] @ [''mipmap-mdpi'', ''ic_launcher.png'']) =
        Some (Png (launcher_square
          \<lparr>im_mode = RGBA, im_size = (37, 37), getpixel = (\<lambda>p. (0, 0, 0, 255))\<rparr> 48 5))"
    "files' (ANDROID_RES [] @ [''mipmap-mdpi'', ''ic_launcher_round.png'']) =
        Some (Png (launcher_round example_env
          \<lparr>im_mode = RGBA, im_size = (37, 37), getpixel = (\<lambda>p. (0, 0, 0, 255))\<rparr> 48 5))"
    by simp_all
  from px [rule_format, of 24 24] cov i r have same:
    "getpixel (launcher_round example_env
       \<lparr>im_mode = RGBA, im_size = (37, 37), getpixel = (\<lambda>p. (0, 0, 0, 255))\<rparr> 48 5) (24, 24) =
     getpixel (launcher_square
       \<lparr>im_mode = RGBA, im_size = (37, 37), getpixel = (\<lambda>p. (0, 0, 0, 255))\<rparr> 48 5) (24, 24)"
    by simp
  from run files o have "\<exists>files'. generate_icons example_env [] example_files = Inr files' \<and>
      files' (ANDROID_RES [] @ [''mipmap-mdpi'', ''ic_launcher.png'']) =
        Some (Png (launcher_square
          \<lparr>im_mode = RGBA, im_size = (37, 37), getpixel = (\<lambda>p. (0, 0, 0, 255))\<rparr> 48 5)) \<and>
      files' (ANDROID_RES [] @ [''mipmap-mdpi'', ''ic_launcher_round.png'']) =
        Some (Png (launcher_round example_env
          \<lparr>im_mode = RGBA, im_size = (37, 37), getpixel = (\<lambda>p. (0, 0, 0, 255))\<rparr> 48 5)) \<and>
      files' (ANDROID_RES [] @ [''mipmap-mdpi'', ''ic_launcher_foreground.png'']) =
        example_files (ANDROID_RES [] @ [''mipmap-mdpi'', ''ic_launcher_foreground.png''])"
    by blast
  with tier i cov same show ?thesis by (intro conjI)
qed

text \<open>
  At pixel (24, 2) of the 48 pixel tier, which the ellipse covers and the pasted render
  (offset 5, size 37) does not, the round icon of the script is opaque white; composited
  onto a transparent canvas, as the spec has it, the pixel would be transparent.
\<close>

theorem C8_counterexample:
  "inner_size_of 48 = 37 \<and> (48 - 37) div 2 = (5 :: int) \<and>
   ellipse_covers example_env (0, 0, 48, 48) (24, 2) \<and>
   getpixel (launcher_round example_env
     \<lparr>im_mode = RGBA, im_size = (37, 37), getpixel = (\<lambda>p. (0, 0, 0, 255))\<rparr> 48 5) (24, 2) =
     (255, 255, 255, 255) \<and>
   getpixel (launcher_round_as_specified example_env
     \<lparr>im_mode = RGBA, im_size = (37, 37), getpixel = (\<lambda>p. (0, 0, 0, 255))\<rparr> 48 5) (24, 2) =
     (0, 0, 0, 0)"
proof -
  have e: "ellipse_covers example_env (0, 0, 48, 48) (24, 2)"
    by (simp add: example_env_def)
  have 1: "getpixel (launcher_round example_env
     \<lparr>im_mode = RGBA, im_size = (37, 37), getpixel = (\<lambda>p. (0, 0, 0, 255))\<rparr> 48 5) (24, 2) =
     (255, 255, 255, 255)"
    using e by (simp add: launcher_round_pixel [where inner = 37])
  have 2: "getpixel (launcher_round_as_specified example_env
     \<lparr>im_mode = RGBA, im_size = (37, 37), getpixel = (\<lambda>p. (0, 0, 0, 255))\<rparr> 48 5) (24, 2) =
     (0, 0, 0, 0)"
    using e by (simp add: launcher_round_as_specified_def paste_def Image_new_def draw_ellipse_def
        mask_value_def gray_def blend_255 Let_def)
  from inner_size_of_48 e 1 2 show ?thesis by simp
qed

text \<open>
  C8 (amended). The round icon of a tier is made by pasting the rendered icon onto an
  opaque white canvas, and then pasting that canvas onto a transparent image through a mask
  that is 255 where the ellipse with bounding box (0, 0, size, size) covers and 0
  elsewhere: a pixel outside the ellipse is transparent, a pixel inside it is the pixel of
  the white canvas with the icon on it.
\<close>

theorem C8_round_variant_on_white:
  assumes "generate_icons env BASE_DIR files = Inr files'" and "(folder, sz) \<in> set MIPMAP_SIZES"
  shows "\<exists>source raster.
      files (SVG_DIR BASE_DIR @ [''pakuni-icon.svg'']) = Some (Svg source) \<and>
      cairo env source (inner_size_of sz) (inner_size_of sz) = Some raster \<and>
      (let fg = \<lparr>im_mode = RGBA, im_size = (inner_size_of sz, inner_size_of sz),
                  getpixel = raster\<rparr>;
           offset = (sz - inner_size_of sz) div 2;
           round_mask = draw_ellipse env (Image_new L (sz, sz) (gray 0)) (0, 0, sz, sz) (gray 255);
           round = launcher_round env fg sz offset
       in files' (ANDROID_RES BASE_DIR @ [folder, ''ic_launcher_round.png'']) = Some (Png round) \<and>
          im_mode round = RGBA \<and> im_size round = (sz, sz) \<and>
          (\<forall>p. mask_value round_mask p =
             (if ellipse_covers env (0, 0, sz, sz) p then 255 else 0)) \<and>
          (\<forall>x y. 0 \<le> x \<and> x < sz \<and> 0 \<le> y \<and> y < sz \<longrightarrow>
             getpixel round (x, y) =
               (if ellipse_covers env (0, 0, sz, sz) (x, y)
                then (if offset \<le> x \<and> x < offset + inner_size_of sz \<and>
                         offset \<le> y \<and> y < offset + inner_size_of sz
                      then blend (mask_value fg (x - offset, y - offset)) (255, 255, 255, 255)
                             (getpixel fg (x - offset, y - offset))
                      else (255, 255, 255, 255))
                else (0, 0, 0, 0))))"
proof -
  from assms(1) obtain source f4 f5 where
    src: "files (SVG_DIR BASE_DIR @ [''pakuni-icon.svg'']) = Some (Svg source)"
    and src4: "f4 (SVG_DIR BASE_DIR @ [''pakuni-icon.svg'']) = Some (Svg source)"
    and l: "mipmap_loop env BASE_DIR MIPMAP_SIZES f4 = Inr f5" and cl: "files' = cleanup BASE_DIR f5"
    by (rule generate_icons_Inr) blast
  let ?inner = "inner_size_of sz"
  let ?offset = "(sz - ?inner) div 2"
  from mipmap_loop_tier [OF l MIPMAP_SIZES_distinct assms(2) src4] obtain raster where
    c: "cairo env source ?inner ?inner = Some raster"
    and rd: "f5 (ANDROID_RES BASE_DIR @ [folder, ''ic_launcher_round.png'']) =
       Some (Png (launcher_round env
         \<lparr>im_mode = RGBA, im_size = (?inner, ?inner), getpixel = raster\<rparr> sz ?offset))"
    by blast
  let ?fg = "\<lparr>im_mode = RGBA, im_size = (?inner, ?inner), getpixel = raster\<rparr>"
  have size_fg: "im_size ?fg = (?inner, ?inner)" by simp
  have "files' (ANDROID_RES BASE_DIR @ [folder, ''ic_launcher_round.png'']) =
      f5 (ANDROID_RES BASE_DIR @ [folder, ''ic_launcher_round.png''])"
    unfolding cl by (rule cleanup_frame) (simp_all add: dirs)
  with rd have 1: "files' (ANDROID_RES BASE_DIR @ [folder, ''ic_launcher_round.png'']) =
      Some (Png (launcher_round env ?fg sz ?offset))"
    by simp
  have 2: "mask_value (draw_ellipse env (Image_new L (sz, sz) (gray 0)) (0, 0, sz, sz) (gray 255)) p =
      (if ellipse_covers env (0, 0, sz, sz) p then 255 else 0)" for p
    by (simp add: mask_value_def draw_ellipse_def Image_new_def gray_def)
  have 3: "getpixel (launcher_round env ?fg sz ?offset) (x, y) =
      (if ellipse_covers env (0, 0, sz, sz) (x, y)
       then (if ?offset \<le> x \<and> x < ?offset + ?inner \<and> ?offset \<le> y \<and> y < ?offset + ?inner
             then blend (mask_value ?fg (x - ?offset, y - ?offset)) (255, 255, 255, 255)
                    (getpixel ?fg (x - ?offset, y - ?offset))
             else (255, 255, 255, 255))
       else (0, 0, 0, 0))"
    if "0 \<le> x \<and> x < sz \<and> 0 \<le> y \<and> y < sz" for x y
    using that by (intro launcher_round_pixel [OF size_fg]) simp_all
  from src c 1 2 3 show ?thesis
    unfolding Let_def
    by (intro exI [of _ source] exI [of _ raster] conjI allI impI launcher_round_mode_size)
      simp_all
qed

theorem C8_witness:
  "(''mipmap-mdpi'', 48) \<in> set MIPMAP_SIZES \<and>
   getpixel (launcher_round example_env
       \<lparr>im_mode = RGBA, im_size = (37, 37), getpixel = (\<lambda>p. (0, 0, 0, 255))\<rparr> 48 5) (24, 24) =
     (0, 0, 0, 255) \<and>
   getpixel (launcher_round example_env
       \<lparr>im_mode = RGBA, im_size = (37, 37), getpixel = (\<lambda>p. (0, 0, 0, 255))\<rparr> 48 5) (24, 2) =
     (255, 255, 255, 255) \<and>
   getpixel (launcher_round example_env
       \<lparr>im_mode = RGBA, im_size = (37, 37), getpixel = (\<lambda>p. (0, 0, 0, 255))\<rparr> 48 5) (0, 0) =
     (0, 0, 0, 0) \<and>
   (\<exists>files'. generate_icons example_env [] example_files = Inr files' \<and>
      files' (ANDROID_RES [] @ [''mipmap-mdpi'', ''ic_launcher_round.png'']) =
        Some (Png (launcher_round example_env
          \<lparr>im_mode = RGBA, im_size = (37, 37), getpixel = (\<lambda>p. (0, 0, 0, 255))\<rparr> 48 5)))"
proof -
  have tier: "(''mipmap-mdpi'', 48) \<in> set MIPMAP_SIZES" by (simp add: MIPMAP_SIZES_def)
  from example_run obtain files' where
    run: "generate_icons example_env [] example_files = Inr files'" ..
  from C8_round_variant_on_white [OF run tier] obtain source raster where
    c: "cairo example_env source (inner_size_of 48) (inner_size_of 48) = Some raster"
    and f: "files' (ANDROID_RES [] @ [''mipmap-mdpi'', ''ic_launcher_round.png'']) =
        Some (Png (launcher_round example_env
          \<lparr>im_mode = RGBA, im_size = (inner_size_of 48, inner_size_of 48), getpixel = raster\<rparr>
          48 ((48 - inner_size_of 48) div 2)))"
    and px: "\<forall>x y. 0 \<le> x \<and> x < 48 \<and> 0 \<le> y \<and> y < 48 \<longrightarrow>
        getpixel (launcher_round example_env
          \<lparr>im_mode = RGBA, im_size = (inner_size_of 48, inner_size_of 48), getpixel = raster\<rparr>
          48 ((48 - inner_size_of 48) div 2)) (x, y) =
        (if ellipse_covers example_env (0, 0, 48, 48) (x, y)
         then (if (48 - inner_size_of 48) div 2 \<le> x \<and>
                  x < (48 - inner_size_of 48) div 2 + inner_size_of 48 \<and>
                  (48 - inner_size_of 48) div 2 \<le> y \<and>
                  y < (48 - inner_size_of 48) div 2 + inner_size_of 48
               then blend (mask_value
                       \<lparr>im_mode = RGBA, im_size = (inner_size_of 48, inner_size_of 48),
                          getpixel = raster\<rparr>
                       (x - (48 - inner_size_of 48) div 2, y - (48 - inner_size_of 48) div 2))
                      (255, 255, 255, 255)
                      (getpixel
                        \<lparr>im_mode = RGBA, im_size = (inner_size_of 48, inner_size_of 48),
                           getpixel = raster\<rparr>
                        (x - (48 - inner_size_of 48) div 2, y - (48 - inner_size_of 48) div 2))
               else (255, 255, 255, 255))
         else (0, 0, 0, 0))"
    unfolding Let_def by blast
  from c have r: "raster = (\<lambda>p. (0, 0, 0, 255))" by (simp add: example_env_def)
  note i = inner_size_of_48
  from f r have fl:
    "files' (ANDROID_RES [] @ [''mipmap-mdpi'', ''ic_launcher_round.png'']) =
        Some (Png (launcher_round example_env
          \<lparr>im_mode = RGBA, im_size = (37, 37), getpixel = (\<lambda>p. (0, 0, 0, 255))\<rparr> 48 5))"
    by (simp add: i)
  from px [rule_format, of 24 24] have p1:
    "getpixel (launcher_round example_env
       \<lparr>im_mode = RGBA, im_size = (37, 37), getpixel = (\<lambda>p. (0, 0, 0, 255))\<rparr> 48 5) (24, 24) =
     (0, 0, 0, 255)"
    by (simp add: i r example_env_def mask_value_def blend_255)
  from px [rule_format, of 24 2] have p2:
    "getpixel (launcher_round example_env
       \<lparr>im_mode = RGBA, im_size = (37, 37), getpixel = (\<lambda>p. (0, 0, 0, 255))\<rparr> 48 5) (24, 2) =
     (255, 255, 255, 255)"
    by (simp add: i r example_env_def)
  from px [rule_format, of 0 0] have p3:
    "getpixel (launcher_round example_env
       \<lparr>im_mode = RGBA, im_size = (37, 37), getpixel = (\<lambda>p. (0, 0, 0, 255))\<rparr> 48 5) (0, 0) =
     (0, 0, 0, 0)"
    by (simp add: i r example_env_def)
  from run fl have "\<exists>files'. generate_icons example_env [] example_files = Inr files' \<and>
      files' (ANDROID_RES [] @ [''mipmap-mdpi'', ''ic_launcher_round.png'']) =
        Some (Png (launcher_round example_env
          \<lparr>im_mode = RGBA, im_size = (37, 37), getpixel = (\<lambda>p. (0, 0, 0, 255))\<rparr> 48 5))"
    by blast
  with tier p1 p2 p3 show ?thesis by (intro conjI)
qed

end
